theory Spec2Isabelle
  imports Main "HOL-Library.Word"
begin

unbundle bit_operations_syntax

section \<open>Python values and exceptions\<close>

text \<open>
  The exceptions that the modelled code can raise. A function that may raise returns
  \<open>error + 'a\<close>, with \<open>Inl\<close> carrying the exception.
\<close>

datatype error =
    IndexError | TypeError | ValueError | KeyError | AttributeError
  | UserWarning string | OSError | WmsError

definition bind_err :: "error + 'a \<Rightarrow> ('a \<Rightarrow> error + 'b) \<Rightarrow> error + 'b" where
  "bind_err m f = (case m of Inl e \<Rightarrow> Inl e | Inr v \<Rightarrow> f v)"

text \<open>
  \<open>xs[i]\<close> on a Python list: a negative index counts from the end, anything outside
  \<open>-len .. len-1\<close> raises IndexError.
\<close>

definition py_getitem :: "'a list \<Rightarrow> int \<Rightarrow> error + 'a" where
  "py_getitem xs i =
     (if 0 \<le> i \<and> i < int (length xs) then Inr (xs ! nat i)
      else if i < 0 \<and> - int (length xs) \<le> i then Inr (xs ! nat (int (length xs) + i))
      else Inl IndexError)"

definition py_setitem :: "'a list \<Rightarrow> int \<Rightarrow> 'a \<Rightarrow> error + 'a list" where
  "py_setitem xs i v =
     (if 0 \<le> i \<and> i < int (length xs) then Inr (xs[nat i := v])
      else if i < 0 \<and> - int (length xs) \<le> i then Inr (xs[nat (int (length xs) + i) := v])
      else Inl IndexError)"

text \<open>
  A Python \<open>bytes\<close> value is a sequence of integers in \<open>0..255\<close>; HOL's \<open>char\<close> is exactly
  an 8-bit byte, so \<open>bytes\<close> is a \<open>char list\<close> and \<open>0xff\<close> is \<open>CHR 0xFF\<close>. A \<open>str\<close> that came
  out of \<open>decode('ascii')\<close> holds code points below 128 only and is a \<open>string\<close>.
\<close>

type_synonym byte = char

section \<open>Static configuration: \<open>ButtonStyle\<close>, \<open>Button\<close>, \<open>Overlay\<close>, \<open>Board\<close>\<close>

datatype ButtonStyle = Style_plain | Style_latch | Style_door

text \<open>\<open>Button = namedtuple('Button', 'name pin, style down up x y radius')\<close>\<close>

record Button =
  btn_name :: string
  btn_pin :: "int option"
  btn_style :: ButtonStyle
  btn_down :: string
  btn_up :: string
  btn_x :: int
  btn_y :: int
  btn_radius :: int

definition mk_Button ::
  "string \<Rightarrow> int option \<Rightarrow> ButtonStyle \<Rightarrow> string \<Rightarrow> string \<Rightarrow> int \<Rightarrow> int \<Rightarrow> int \<Rightarrow> Button" where
  "mk_Button n p s d u bx by' r =
     \<lparr>btn_name = n, btn_pin = p, btn_style = s, btn_down = d, btn_up = u,
      btn_x = bx, btn_y = by', btn_radius = r\<rparr>"

text \<open>\<open>Overlay = namedtuple('Overlay', 'x y images')\<close>; an image is known by its file name.\<close>

record Overlay =
  ov_x :: int
  ov_y :: int
  ov_images :: "string list"

definition mk_Overlay :: "int \<Rightarrow> int \<Rightarrow> string list \<Rightarrow> Overlay" where
  "mk_Overlay ox oy imgs = \<lparr>ov_x = ox, ov_y = oy, ov_images = imgs\<rparr>"

definition Board_rcc_ahbenr :: string where
  "Board_rcc_ahbenr = ''M40023830? ''"

definition Board_rcc_apb1enr :: string where
  "Board_rcc_apb1enr = ''M40023840? ''"

definition Board_buttons :: "Button list" where
  "Board_buttons =
    [mk_Button ''reset'' None Style_plain '''' ''reset '' 32 200 8,
     mk_Button ''door'' (Some 0) Style_door ''D0L0 '' ''D0d0 '' 730 310 15,
     mk_Button ''PS1'' (Some 1) Style_latch ''D0L1 '' ''D0d1 '' 730 130 12,
     mk_Button ''PS2'' (Some 2) Style_latch ''D0L2 '' ''D0d2 '' 695 130 12,
     mk_Button ''PS3'' (Some 3) Style_latch ''D0L3 '' ''D0d3 '' 665 130 12,
     mk_Button ''cancel'' (Some 4) Style_latch ''D0L4 '' ''D0d4 '' 615 130 12,
     mk_Button ''accept'' (Some 5) Style_latch ''D0L5 '' ''D0d5 '' 575 130 12,
     mk_Button ''motor'' (Some 6) Style_plain ''D0L6 '' ''D0d6 '' 650 230 50]"

text \<open>The dict \<open>Board.overlays\<close>, in source order.\<close>

definition Board_overlays :: "(string \<times> Overlay) list" where
  "Board_overlays =
    [(''led'', mk_Overlay 207 298 [''led-0.png'', ''led-1.png'']),
     (''PS1'', mk_Overlay 702 26 [''ps1-0.png'', ''ps1-1.png'']),
     (''PS2'', mk_Overlay 667 26 [''ps2-0.png'', ''ps2-1.png'']),
     (''PS3'', mk_Overlay 632 26 [''ps3-0.png'', ''ps3-1.png'']),
     (''sseg'', mk_Overlay 550 289
        [''sseg-0.png'', ''sseg-1.png'', ''sseg-2.png'', ''sseg-3.png'',
         ''sseg-4.png'', ''sseg-5.png'', ''sseg-6.png'', ''sseg-7.png'',
         ''sseg-8.png'', ''sseg-9.png'', ''sseg-10.png'', ''sseg-11.png'',
         ''sseg-12.png'', ''sseg-13.png'', ''sseg-14.png'', ''sseg-15.png'']),
     (''motor'', mk_Overlay 592 171 [''motor-00.png'', ''motor-30.png'', ''motor-60.png'']),
     (''spinner'', mk_Overlay 627 203 [''motor-stop.png'', ''motor-cw.png'', ''motor-acw.png'']),
     (''door'', mk_Overlay 711 301 [''door-closed.png'', ''door-open.png''])]"

definition Board_led_xy :: "(int \<times> int) list" where
  "Board_led_xy = [(207, 298), (217, 298), (227, 298), (237, 298)]"

text \<open>\<open>Board.overlays.get(tag)\<close> gives \<open>None\<close> for a missing key, \<open>Board.overlays[tag]\<close> raises.\<close>

definition overlays_get :: "string \<Rightarrow> Overlay option" where
  "overlays_get tag = map_of Board_overlays tag"

definition overlays_item :: "string \<Rightarrow> error + Overlay" where
  "overlays_item tag = (case map_of Board_overlays tag of None \<Rightarrow> Inl KeyError | Some ov \<Rightarrow> Inr ov)"

section \<open>\<open>QEmuListener\<close> as the board sees it\<close>

text \<open>
  The listener object owns the carry-over buffer of \<open>read\<close> and the socket. What
  \<open>write\<close> hands to the socket is recorded per call in \<open>socket_out\<close>; the byte-level loop of
  \<open>write\<close> over a socket that may accept fewer bytes is \<open>QEmuListener_write_loop\<close> below.
\<close>

record QEmuListener =
  recv_buffer :: "byte list"
  socket_out :: "string list"

definition QEmuListener_write :: "string \<Rightarrow> QEmuListener \<Rightarrow> QEmuListener" where
  "QEmuListener_write message q = q\<lparr>socket_out := socket_out q @ [message]\<rparr>"

section \<open>\<open>WmsBoard\<close>: state of the graphic board display\<close>

text \<open>
  The canvas is the sequence of \<open>create_image(x, y, image=...)\<close> calls made so far.
\<close>

record WmsBoard =
  canvas :: "(int \<times> int \<times> string) list"
  latch :: bool
  latched :: "bool list"
  sseg :: int
  motor :: bool
  sprite :: int
  direction :: int

definition WmsBoard_init :: WmsBoard where
  "WmsBoard_init =
     \<lparr>canvas = [], latch = False, latched = replicate (length Board_buttons) False,
      sseg = 0, motor = False, sprite = 0, direction = 0\<rparr>"

definition create_image :: "int \<Rightarrow> int \<Rightarrow> string \<Rightarrow> WmsBoard \<Rightarrow> WmsBoard" where
  "create_image px py img b = b\<lparr>canvas := canvas b @ [(px, py, img)]\<rparr>"

text \<open>\<open>self.latched[button.pin]\<close>: a \<open>None\<close> pin is a TypeError, a pin out of range an IndexError.\<close>

definition latched_get :: "WmsBoard \<Rightarrow> int option \<Rightarrow> error + bool" where
  "latched_get b p = (case p of None \<Rightarrow> Inl TypeError | Some i \<Rightarrow> py_getitem (latched b) i)"

definition latched_set :: "WmsBoard \<Rightarrow> int option \<Rightarrow> bool \<Rightarrow> error + WmsBoard" where
  "latched_set b p v =
     (case p of None \<Rightarrow> Inl TypeError
      | Some i \<Rightarrow> bind_err (py_setitem (latched b) i v) (\<lambda>l. Inr (b\<lparr>latched := l\<rparr>)))"

text \<open>
  The loop of \<open>update_device\<close> for pin 14 with the latch off: every latch-style button is
  unlatched and its \<open>up\<close> command written when a listener is attached.
\<close>

fun release_latches ::
  "Button list \<Rightarrow> WmsBoard \<Rightarrow> QEmuListener option \<Rightarrow> error + (WmsBoard \<times> QEmuListener option)" where
  "release_latches [] b qemu = Inr (b, qemu)"
| "release_latches (bt # bts) b qemu =
     (if btn_style bt \<noteq> Style_latch then release_latches bts b qemu
      else bind_err (latched_set b (btn_pin bt) False) (\<lambda>b'.
             release_latches bts b' (map_option (QEmuListener_write (btn_up bt)) qemu)))"

text \<open>\<open>for ps in 'PS1', 'PS2', 'PS3'\<close>: draw image 0 of each overlay.\<close>

fun reset_ps :: "string list \<Rightarrow> WmsBoard \<Rightarrow> error + WmsBoard" where
  "reset_ps [] b = Inr b"
| "reset_ps (ps # rest) b =
     bind_err (overlays_item ps) (\<lambda>ov.
     bind_err (py_getitem (ov_images ov) 0) (\<lambda>img.
       reset_ps rest (create_image (ov_x ov) (ov_y ov) img b)))"

definition update_device ::
  "int \<Rightarrow> int \<Rightarrow> QEmuListener option \<Rightarrow> WmsBoard \<Rightarrow> error + (WmsBoard \<times> QEmuListener option)" where
  "update_device pin level qemu b =
     (if 8 \<le> pin \<and> pin \<le> 11 then
        bind_err (overlays_item ''led'') (\<lambda>ov.
        bind_err (py_getitem Board_led_xy (pin - 8)) (\<lambda>(px, py).
        bind_err (py_getitem (ov_images ov) level) (\<lambda>img.
          let b1 = create_image px py img b;
              b2 = (if level \<noteq> 0
                    then b1\<lparr>sseg := sseg b1 OR push_bit (nat (pin - 8)) 1\<rparr>
                    else b1\<lparr>sseg := sseg b1 AND NOT (push_bit (nat (pin - 8)) 1)\<rparr>)
          in (case overlays_get ''sseg'' of
                None \<Rightarrow> Inl AttributeError
              | Some ov2 \<Rightarrow>
                  bind_err (py_getitem (ov_images ov2) (sseg b2)) (\<lambda>img2.
                    Inr (create_image (ov_x ov2) (ov_y ov2) img2 b2, qemu))))))
      else if pin = 12 then
        bind_err (overlays_item ''motor'') (\<lambda>ov.
        bind_err (py_getitem (ov_images ov) (sprite b)) (\<lambda>img.
          let b1 = create_image (ov_x ov) (ov_y ov) img b in
          bind_err
            (if motor b1 \<and> level = 0 then
               bind_err (overlays_item ''spinner'') (\<lambda>ov2.
               bind_err (py_getitem (ov_images ov2) 0) (\<lambda>img2.
                 Inr (create_image (ov_x ov2) (ov_y ov2) img2 b1)))
             else Inr b1)
            (\<lambda>b2. Inr (b2\<lparr>motor := (level \<noteq> 0)\<rparr>, qemu))))
      else if pin = 13 then Inr (b\<lparr>direction := level\<rparr>, qemu)
      else if pin = 14 then
        (let b1 = b\<lparr>latch := (level \<noteq> 0)\<rparr> in
         if \<not> latch b1 then
           bind_err (release_latches Board_buttons b1 qemu) (\<lambda>(b2, qemu2).
           bind_err (reset_ps [''PS1'', ''PS2'', ''PS3''] b2) (\<lambda>b3. Inr (b3, qemu2)))
         else Inr (b1, qemu))
      else Inr (b, qemu))"

text \<open>\<open>update_button\<close>: draw the button's overlay image for the level, if it has an overlay.\<close>

definition update_button :: "Button \<Rightarrow> int \<Rightarrow> WmsBoard \<Rightarrow> error + WmsBoard" where
  "update_button bt level b =
     (case overlays_get (btn_name bt) of
        None \<Rightarrow> Inr b
      | Some ov \<Rightarrow>
          bind_err (py_getitem (ov_images ov) level) (\<lambda>img.
            Inr (create_image (ov_x ov) (ov_y ov) img b)))"

text \<open>The common tail of \<open>button_down\<close> and \<open>button_up\<close>: render, then write the command.\<close>

definition render_and_send ::
  "Button \<Rightarrow> int \<Rightarrow> string \<Rightarrow> QEmuListener option \<Rightarrow> WmsBoard
   \<Rightarrow> error + (WmsBoard \<times> QEmuListener option)" where
  "render_and_send bt level cmd qemu b =
     bind_err (update_button bt level b) (\<lambda>b'.
       Inr (b', if cmd \<noteq> [] then map_option (QEmuListener_write cmd) qemu else qemu))"

definition button_down ::
  "Button \<Rightarrow> QEmuListener option \<Rightarrow> WmsBoard \<Rightarrow> error + (WmsBoard \<times> QEmuListener option)" where
  "button_down bt qemu b =
     (if btn_style bt = Style_latch then
        bind_err (if latch b then latched_get b (btn_pin bt) else Inr False) (\<lambda>held.
          if held then Inr (b, qemu)
          else bind_err (latched_set b (btn_pin bt) (latch b)) (\<lambda>b'.
                 render_and_send bt 1 (btn_down bt) qemu b'))
      else if btn_style bt = Style_door then
        bind_err (latched_get b (btn_pin bt)) (\<lambda>is_open.
          if is_open then bind_err (latched_set b (btn_pin bt) False) (\<lambda>b'. Inr (b', qemu))
          else bind_err (latched_set b (btn_pin bt) True) (\<lambda>b'.
                 render_and_send bt 1 (btn_down bt) qemu b'))
      else render_and_send bt 1 (btn_down bt) qemu b)"

definition button_up ::
  "Button \<Rightarrow> QEmuListener option \<Rightarrow> WmsBoard \<Rightarrow> error + (WmsBoard \<times> QEmuListener option)" where
  "button_up bt qemu b =
     (if btn_style bt = Style_latch then
        bind_err (if latch b then latched_get b (btn_pin bt) else Inr False) (\<lambda>held.
          if held then Inr (b, qemu) else render_and_send bt 0 (btn_up bt) qemu b)
      else if btn_style bt = Style_door then
        bind_err (latched_get b (btn_pin bt)) (\<lambda>is_open.
          if is_open then Inr (b, qemu) else render_and_send bt 0 (btn_up bt) qemu b)
      else render_and_send bt 0 (btn_up bt) qemu b)"

text \<open>\<open>animate\<close>: with the motor on, draw the current sprite, advance it, draw the spinner.\<close>

definition animate :: "WmsBoard \<Rightarrow> error + WmsBoard" where
  "animate b =
     (if motor b then
        bind_err (overlays_item ''motor'') (\<lambda>ov.
        bind_err (py_getitem (ov_images ov) (sprite b)) (\<lambda>img.
          let b1 = create_image (ov_x ov) (ov_y ov) img b;
              b2 = b1\<lparr>sprite := (sprite b1 + 1) mod int (length (ov_images ov))\<rparr>
          in bind_err (overlays_item ''spinner'') (\<lambda>ov2.
             bind_err (py_getitem (ov_images ov2) (direction b2 + 1)) (\<lambda>img2.
               Inr (create_image (ov_x ov2) (ov_y ov2) img2 b2)))))
      else Inr b)"

section \<open>\<open>QEmuTag\<close> and the timing constants\<close>

definition POLL :: int where "POLL = 100"
definition DEVICE_POLL :: int where "DEVICE_POLL = 5000"
definition DISPLAY_WARN :: int where "DISPLAY_WARN = 5000"

definition QEmuTag_pin_low :: int where "QEmuTag_pin_low = 0"
definition QEmuTag_pin_high :: int where "QEmuTag_pin_high = 1"
definition QEmuTag_gpiod_enabled :: int where "QEmuTag_gpiod_enabled = 11"
definition QEmuTag_command :: int where "QEmuTag_command = 12"
definition QEmuTag_moder :: int where "QEmuTag_moder = 13"
definition QEmuTag_idr :: int where "QEmuTag_idr = 14"
definition QEmuTag_warning :: int where "QEmuTag_warning = 15"
definition QEmuTag_usart3_enabled :: int where "QEmuTag_usart3_enabled = 21"
definition QEmuTag_sr :: int where "QEmuTag_sr = 22"
definition QEmuTag_cr1 :: int where "QEmuTag_cr1 = 23"

definition REPLY_MAP :: "(string \<times> int) list" where
  "REPLY_MAP =
     [(''=m40023830'', QEmuTag_gpiod_enabled), (''=m40023840'', QEmuTag_usart3_enabled),
      (''=d0'', QEmuTag_moder), (''=d4'', QEmuTag_idr),
      (''=u0'', QEmuTag_sr), (''=u3'', QEmuTag_cr1)]"

section \<open>\<open>QEmuListener.read\<close>: reassembly of whitespace-terminated messages\<close>

text \<open>\<open>bytes.isspace\<close> on one byte: space, tab, newline, carriage return, VT, FF.\<close>

definition isspace_byte :: "byte \<Rightarrow> bool" where
  "isspace_byte c = (c \<in> {CHR 0x20, CHR 0x09, CHR 0x0A, CHR 0x0D, CHR 0x0B, CHR 0x0C})"

text \<open>
  Whitespace for \<open>str.split()\<close> on text of code points below 128: the six above and the
  separators \<open>0x1c .. 0x1f\<close>.
\<close>

definition isspace_str :: "char \<Rightarrow> bool" where
  "isspace_str c = (isspace_byte c \<or> c \<in> {CHR 0x1C, CHR 0x1D, CHR 0x1E, CHR 0x1F})"

text \<open>\<open>while data and data[0] == 0xff: data = data[3:]\<close>\<close>

fun strip_escape :: "byte list \<Rightarrow> byte list" where
  "strip_escape [] = []"
| "strip_escape (c # cs) = (if c = CHR 0xFF then strip_escape (drop 2 cs) else c # cs)"

text \<open>
  \<open>while data and not data[-1:].isspace(): self.recv_buffer.insert(0, data.pop())\<close>,
  as a pair (data, recv_buffer).
\<close>

function split_tail :: "byte list \<Rightarrow> byte list \<Rightarrow> byte list \<times> byte list" where
  "split_tail data buf =
     (if data \<noteq> [] \<and> \<not> isspace_byte (last data)
      then split_tail (butlast data) (last data # buf)
      else (data, buf))"
  by pat_completeness auto
termination
  by (relation "measure (\<lambda>(data, buf). length data)") auto

text \<open>\<open>data.decode('ascii')\<close>: a byte above 127 raises UnicodeDecodeError, a ValueError.\<close>

definition decode_ascii :: "byte list \<Rightarrow> error + string" where
  "decode_ascii data =
     (if \<forall>c \<in> set data. (of_char c :: nat) < 128 then Inr data else Inl ValueError)"

text \<open>What \<open>select\<close> and \<open>socket.recv(15)\<close> give to one call of \<open>read\<close>.\<close>

datatype recv_result = Data "byte list" | Timeout | Failed

text \<open>
  \<open>read\<close> returns the new \<open>recv_buffer\<close> and either the text or the exception. The buffer is
  rewritten before \<open>decode\<close> runs, so a decoding error keeps the new carry and loses the data.
  \<open>socket.timeout\<close> and \<open>ValueError\<close> become the UserWarning; any other OSError passes through.
\<close>

definition QEmuListener_read :: "recv_result \<Rightarrow> byte list \<Rightarrow> byte list \<times> (error + string)" where
  "QEmuListener_read r buf =
     (case r of
        Timeout \<Rightarrow> (buf, Inl (UserWarning ''Warning: QEMU receiver timeout''))
      | Failed \<Rightarrow> (buf, Inl OSError)
      | Data received \<Rightarrow>
          (let (data, carry) = split_tail (strip_escape (buf @ received)) []
           in (carry,
               case decode_ascii data of
                 Inl e \<Rightarrow> Inl (UserWarning ''Warning: QEMU receiver timeout'')
               | Inr text \<Rightarrow> Inr text)))"

text \<open>\<open>str.split()\<close> with no argument: maximal runs of non-whitespace.\<close>

fun split_from :: "string \<Rightarrow> string \<Rightarrow> string list" where
  "split_from cur [] = (if cur = [] then [] else [cur])"
| "split_from cur (c # cs) =
     (if isspace_str c then (if cur = [] then [] else [cur]) @ split_from [] cs
      else split_from (cur @ [c]) cs)"

definition py_split :: "string \<Rightarrow> string list" where
  "py_split s = split_from [] s"

text \<open>
  The tokens that successive passes of the \<open>listen\<close> loop obtain from
  \<open>self.read().split()\<close> when \<open>recv\<close> delivers the given chunks one after the other; a pass
  whose \<open>read\<close> raises obtains none.
\<close>

fun read_tokens :: "byte list \<Rightarrow> byte list list \<Rightarrow> string list" where
  "read_tokens buf [] = []"
| "read_tokens buf (chunk # chunks) =
     (case QEmuListener_read (Data chunk) buf of
        (buf', Inl e) \<Rightarrow> read_tokens buf' chunks
      | (buf', Inr text) \<Rightarrow> py_split text @ read_tokens buf' chunks)"

section \<open>\<open>QEmuListener.listen\<close>: decoding the replies\<close>

text \<open>
  \<open>int(s, 16)\<close> on text without whitespace: an optional sign, an optional \<open>0x\<close>/\<open>0X\<close>
  prefix (one underscore may follow it), then hexadecimal digits with single underscores
  between them. Anything else is a ValueError.
\<close>

definition hex_value :: "char \<Rightarrow> int option" where
  "hex_value c =
     (let n = (of_char c :: nat) in
      if 48 \<le> n \<and> n \<le> 57 then Some (int n - 48)
      else if 97 \<le> n \<and> n \<le> 102 then Some (int n - 87)
      else if 65 \<le> n \<and> n \<le> 70 then Some (int n - 55)
      else None)"

text \<open>
  The digit loop: \<open>acc\<close> is the value so far, \<open>prev_us\<close> says that the previous character
  was an underscore.
\<close>

fun hex_digits_value :: "int \<Rightarrow> bool \<Rightarrow> string \<Rightarrow> int option" where
  "hex_digits_value acc prev_us [] = (if prev_us then None else Some acc)"
| "hex_digits_value acc prev_us (c # cs) =
     (if c = CHR ''_'' then (if prev_us then None else hex_digits_value acc True cs)
      else (case hex_value c of
              None \<Rightarrow> None
            | Some d \<Rightarrow> hex_digits_value (16 * acc + d) False cs))"

definition py_int16 :: "string \<Rightarrow> error + int" where
  "py_int16 s =
     (let (neg, s1) = (case s of
                         c # cs \<Rightarrow> if c = CHR ''-'' then (True, cs)
                                   else if c = CHR ''+'' then (False, cs) else (False, s)
                       | [] \<Rightarrow> (False, s));
          s2 = (case s1 of
                  c0 # c1 # cs \<Rightarrow>
                    if c0 = CHR ''0'' \<and> (c1 = CHR ''x'' \<or> c1 = CHR ''X'')
                    then (case cs of c2 # cs' \<Rightarrow> if c2 = CHR ''_'' then cs' else cs | [] \<Rightarrow> cs)
                    else s1
                | _ \<Rightarrow> s1)
      in if s2 = [] \<or> hd s2 = CHR ''_'' then Inl ValueError
         else (case hex_digits_value 0 False s2 of
                 None \<Rightarrow> Inl ValueError
               | Some v \<Rightarrow> Inr (if neg then - v else v)))"

text \<open>\<open>reply.partition('?/')\<close>: the text before the first \<open>?/\<close>, whether it occurs, the text after.\<close>

fun partition_sep :: "string \<Rightarrow> string \<times> bool \<times> string" where
  "partition_sep [] = ([], False, [])"
| "partition_sep [c] = ([c], False, [])"
| "partition_sep (c # d # cs) =
     (if c = CHR ''?'' \<and> d = CHR ''/'' then ([], True, cs)
      else (case partition_sep (d # cs) of (before, found, rest) \<Rightarrow> (c # before, found, rest)))"

text \<open>What the listener thread asks of the GUI: \<open>gui.warning(msg)\<close> or \<open>gui.event(tag, value)\<close>.\<close>

datatype gui_call = Warning_call string | Event_call int int

text \<open>
  The body of \<open>for reply in replies\<close> for one reply. \<open>reply[2]\<close> raises IndexError on a reply
  of fewer than three characters and \<open>int\<close> raises ValueError.
\<close>

definition handle_reply :: "string \<Rightarrow> error + gui_call list" where
  "handle_reply reply =
     (if take 1 reply = ''?'' then Inr [Warning_call (''Invalid command response: '' @ reply)]
      else if take 1 reply = ''-'' then
        bind_err (py_getitem reply 2) (\<lambda>c.
        bind_err (py_int16 [c]) (\<lambda>v. Inr [Event_call QEmuTag_pin_low v]))
      else if take 1 reply = ''+'' then
        bind_err (py_getitem reply 2) (\<lambda>c.
        bind_err (py_int16 [c]) (\<lambda>v. Inr [Event_call QEmuTag_pin_high v]))
      else if take 1 reply = ''='' then
        (case partition_sep reply of
           (cmd, sep, val) \<Rightarrow>
             if \<not> sep then
               Inr [Warning_call (''Memory query missing ?/ separator: '' @ [CHR 0x22] @ reply
                                  @ [CHR 0x22])]
             else (case map_of REPLY_MAP cmd of
                     None \<Rightarrow>
                       Inr [Warning_call (''Unknown command prefix in response: '' @ reply
                                            @ '' '' @ [CHR 0x22] @ cmd @ [CHR 0x22])]
                   | Some t \<Rightarrow> bind_err (py_int16 val) (\<lambda>v. Inr [Event_call t v])))
      else Inr [])"

text \<open>
  \<open>for reply in replies\<close>: the calls made before an exception stay made; the exception
  ends the loop.
\<close>

fun handle_replies :: "string list \<Rightarrow> gui_call list \<times> error option" where
  "handle_replies [] = ([], None)"
| "handle_replies (reply # replies) =
     (case handle_reply reply of
        Inl e \<Rightarrow> ([], Some e)
      | Inr calls \<Rightarrow> (case handle_replies replies of (later, e) \<Rightarrow> (calls @ later, e)))"

text \<open>
  How the \<open>while True\<close> loop of \<open>listen\<close> stands after the given results of \<open>recv\<close>:
  still looping (with its carry-over buffer), left by \<open>break\<close> after an OSError, or ended by
  an exception that neither \<open>except\<close> clause catches (only UserWarning and OSError are caught).
\<close>

datatype listen_status = Looping "byte list" | Closed | Aborted error

fun listen :: "byte list \<Rightarrow> recv_result list \<Rightarrow> gui_call list \<times> listen_status" where
  "listen buf [] = ([], Looping buf)"
| "listen buf (r # rs) =
     (case QEmuListener_read r buf of
        (buf', Inl (UserWarning msg)) \<Rightarrow>
          (case listen buf' rs of (calls, st) \<Rightarrow> (Warning_call msg # calls, st))
      | (buf', Inl OSError) \<Rightarrow> ([Warning_call ''Warning: QEMU connection closed''], Closed)
      | (buf', Inl e) \<Rightarrow> ([], Aborted e)
      | (buf', Inr text) \<Rightarrow>
          (case handle_replies (py_split text) of
             (calls, None) \<Rightarrow> (case listen buf' rs of (later, st) \<Rightarrow> (calls @ later, st))
           | (calls, Some (UserWarning msg)) \<Rightarrow>
               (case listen buf' rs of (later, st) \<Rightarrow> (calls @ Warning_call msg # later, st))
           | (calls, Some OSError) \<Rightarrow>
               (calls @ [Warning_call ''Warning: QEMU connection closed''], Closed)
           | (calls, Some e) \<Rightarrow> (calls, Aborted e)))"

section \<open>\<open>write\<close>: the send loops over a socket\<close>

text \<open>
  The socket is the environment: \<open>sock k\<close> is how many bytes the \<open>k\<close>-th call of
  \<open>socket.send\<close> would accept at most (it never reports more than it was offered), or
  \<open>None\<close> when that call raises an OSError.
\<close>

type_synonym socket = "nat \<Rightarrow> nat option"

text \<open>
  The state of a \<open>write\<close> in progress: calls of \<open>send\<close> made so far, bytes the socket
  accepted, and the warnings handed to \<open>gui.warning\<close>.
\<close>

record write_state =
  send_calls :: nat
  accepted :: "byte list"
  warnings :: "string list"

text \<open>How an f-string shows a \<open>bytes\<close> value of printable characters: \<open>b'...'\<close>.\<close>

definition bytes_repr :: "byte list \<Rightarrow> string" where
  "bytes_repr message = [CHR ''b'', CHR 0x27] @ message @ [CHR 0x27]"

text \<open>\<open>QEmuListener.write\<close>: \<open>None\<close> is a loop that never returns.\<close>

partial_function (option) QEmuListener_write_loop ::
  "socket \<Rightarrow> byte list \<Rightarrow> nat \<Rightarrow> write_state \<Rightarrow> (error + write_state) option" where
  "QEmuListener_write_loop sock message tot st =
     (if tot < length message then
        (case sock (send_calls st) of
           None \<Rightarrow> Some (Inl OSError)
         | Some n \<Rightarrow>
             (let sent = min n (length (drop tot message));
                  st1 = st\<lparr>send_calls := send_calls st + 1,
                           accepted := accepted st @ take sent (drop tot message)\<rparr>;
                  st2 = (if sent = 0
                         then st1\<lparr>warnings := warnings st1 @
                                  [''Warning: QEMU connection send error '' @ bytes_repr message]\<rparr>
                         else st1)
              in QEmuListener_write_loop sock message (tot + sent) st2))
      else Some (Inr st))"

text \<open>\<open>QEmuSerial.write\<close>: the same loop, but a zero-byte send raises UserWarning.\<close>

partial_function (option) QEmuSerial_write_loop ::
  "socket \<Rightarrow> byte list \<Rightarrow> nat \<Rightarrow> write_state \<Rightarrow> (error + write_state) option" where
  "QEmuSerial_write_loop sock message tot st =
     (if tot < length message then
        (case sock (send_calls st) of
           None \<Rightarrow> Some (Inl OSError)
         | Some n \<Rightarrow>
             (let sent = min n (length (drop tot message));
                  st1 = st\<lparr>send_calls := send_calls st + 1,
                           accepted := accepted st @ take sent (drop tot message)\<rparr>
              in if sent = 0
                 then Some (Inl (UserWarning (''Warning: QEMU usart send error '' @ bytes_repr message)))
                 else QEmuSerial_write_loop sock message (tot + sent) st1))
      else Some (Inr st))"

section \<open>\<open>QEmuSerial\<close>\<close>

record QEmuSerial =
  serial_out :: "string list"

text \<open>
  \<open>QEmuSerial.read\<close>: \<open>socket.timeout\<close> and \<open>BlockingIOError\<close> give \<open>None\<close>; a decoding
  error or another OSError is raised to the caller.
\<close>

definition QEmuSerial_read :: "recv_result \<Rightarrow> error + string option" where
  "QEmuSerial_read r =
     (case r of
        Timeout \<Rightarrow> Inr None
      | Failed \<Rightarrow> Inl OSError
      | Data received \<Rightarrow> bind_err (decode_ascii (strip_escape received)) (\<lambda>text. Inr (Some text)))"

section \<open>\<open>WmsGui\<close>\<close>

text \<open>Upper-case hexadecimal, and the format \<open>{value:0wX}\<close> (zero padding after the sign).\<close>

definition hex_digit :: "nat \<Rightarrow> char" where
  "hex_digit n = ''0123456789ABCDEF'' ! n"

fun hex_upper :: "nat \<Rightarrow> string" where
  "hex_upper n = (if n < 16 then [hex_digit n] else hex_upper (n div 16) @ [hex_digit (n mod 16)])"

declare hex_upper.simps [simp del]

definition format_0X :: "nat \<Rightarrow> int \<Rightarrow> string" where
  "format_0X w v =
     (let ds = hex_upper (nat \<bar>v\<bar>); sgn = (if v < 0 then ''-'' else [])
      in sgn @ replicate (w - length sgn - length ds) (CHR ''0'') @ ds)"

text \<open>
  The fields of \<open>WmsGui\<close> that its handlers read and write. A \<open>CheckBox\<close> is the value of
  its \<open>IntVar\<close>, a label is its text, \<open>putty\<close> is the text of the terminal widget.
  \<open>after_warnings\<close> holds the messages of the pending \<open>root.after(10, self.do_warning, msg)\<close>
  calls, \<open>timers\<close> counts the pending \<open>root.after(POLL, self.on_timer_running)\<close> calls,
  \<open>buttons_connected\<close> is the last argument of \<open>do_enable_buttons\<close> and \<open>destroyed\<close> says
  that \<open>root.destroy()\<close> has run.
\<close>

record WmsGui =
  stopping :: bool
  button :: "Button option"
  listener :: "QEmuListener option"
  serial :: "QEmuSerial option"
  device_ticks :: int
  warn_ticks :: int
  connecting :: bool
  host :: string
  warn_field :: string
  board :: WmsBoard
  mode :: string
  idr :: string
  gpiod :: int
  pins :: "int list"
  cr1 :: string
  sr :: string
  usart3 :: int
  putty :: string
  after_warnings :: "string list"
  timers :: nat
  buttons_connected :: bool
  cursor :: string
  destroyed :: bool

text \<open>\<open>warning\<close> only schedules \<open>do_warning\<close>; \<open>do_warning\<close> sets or clears the field.\<close>

definition warning :: "string \<Rightarrow> WmsGui \<Rightarrow> WmsGui" where
  "warning msg g = g\<lparr>after_warnings := after_warnings g @ [msg]\<rparr>"

text \<open>\<open>now\<close> is \<open>datetime.now()\<close> formatted as \<open>%H:%M:%S\<close>.\<close>

definition do_warning :: "string \<Rightarrow> string \<Rightarrow> WmsGui \<Rightarrow> WmsGui" where
  "do_warning now val g =
     (if val \<noteq> [] then g\<lparr>warn_field := now @ '' '' @ val, warn_ticks := POLL\<rparr>
      else g\<lparr>warn_field := [], warn_ticks := 0\<rparr>)"

text \<open>\<open>WmsGui.__init__\<close>, for the configured host.\<close>

definition WmsGui_init :: "string \<Rightarrow> WmsGui" where
  "WmsGui_init h =
     warning (''Use '' @ [CHR 0x22] @ ''Connect'' @ [CHR 0x22] @ '' or '' @ [CHR 0x22]
              @ ''Connect+Serial'' @ [CHR 0x22] @ '' to attach to QEMU/WMS'')
       \<lparr>stopping = False, button = None, listener = None, serial = None,
        device_ticks = 0, warn_ticks = 0, connecting = True, host = h,
        warn_field = [], board = WmsBoard_init,
        mode = ''mode: 00000000'', idr = ''     idr: 0000'', gpiod = 0,
        pins = replicate 7 0, cr1 = ''cr1: 0000'', sr = ''sr: 0000'', usart3 = 0,
        putty = [], after_warnings = [], timers = 0, buttons_connected = False,
        cursor = [], destroyed = False\<rparr>"

text \<open>\<open>self.listener.write(message)\<close>: on \<open>None\<close> the attribute lookup raises.\<close>

definition listener_write :: "string \<Rightarrow> WmsGui \<Rightarrow> error + WmsGui" where
  "listener_write message g =
     (case listener g of
        None \<Rightarrow> Inl AttributeError
      | Some q \<Rightarrow> Inr (g\<lparr>listener := Some (QEmuListener_write message q)\<rparr>))"

text \<open>
  \<open>do_check_status\<close>. Its two calls of \<open>self.listener.write\<close> pass two arguments to a
  method that takes one, which is a TypeError whenever one of them is reached.
\<close>

definition do_check_status :: "WmsGui \<Rightarrow> error + WmsGui" where
  "do_check_status g =
     (let g1 = (if warn_ticks g \<noteq> 0 then
                  (let g' = g\<lparr>warn_ticks := warn_ticks g + POLL\<rparr>
                   in if warn_ticks g' \<ge> DISPLAY_WARN then warning [] g' else g')
                else g);
          g2 = g1\<lparr>device_ticks := device_ticks g1 + POLL\<rparr>;
          check_devices = (device_ticks g2 \<ge> DEVICE_POLL);
          g3 = (if check_devices then g2\<lparr>device_ticks := 0\<rparr> else g2)
      in if check_devices \<or> gpiod g3 = 0 then Inl TypeError
         else if check_devices \<or> usart3 g3 = 0 then Inl TypeError
         else Inr g3)"

text \<open>The two loops of the resynchronisation in \<open>on_message\<close>.\<close>

fun replay_pins ::
  "int list \<Rightarrow> int \<Rightarrow> QEmuListener option \<Rightarrow> WmsBoard \<Rightarrow> error + (WmsBoard \<times> QEmuListener option)" where
  "replay_pins [] val qemu b = Inr (b, qemu)"
| "replay_pins (pin # rest) val qemu b =
     (if drop_bit (nat pin) val AND 1 \<noteq> 0
      then bind_err (update_device pin 1 qemu b) (\<lambda>(b', qemu'). replay_pins rest val qemu' b')
      else replay_pins rest val qemu b)"

fun replay_buttons :: "Button list \<Rightarrow> int \<Rightarrow> WmsBoard \<Rightarrow> error + WmsBoard" where
  "replay_buttons [] val b = Inr b"
| "replay_buttons (bt # rest) val b =
     (case btn_pin bt of
        None \<Rightarrow> replay_buttons rest val b
      | Some p \<Rightarrow>
          if drop_bit (nat p) val AND 1 \<noteq> 0
          then bind_err (button_down bt None b) (\<lambda>(b1, q1).
               bind_err (button_up bt None b1) (\<lambda>(b2, q2). replay_buttons rest val b2))
          else replay_buttons rest val b)"

text \<open>\<open>on_message\<close>, bound to the \<open><<message>>\<close> event; \<open>tag\<close> is \<open>event.state\<close>, \<open>val\<close> is \<open>event.x\<close>.\<close>

definition on_message :: "int \<Rightarrow> int \<Rightarrow> WmsGui \<Rightarrow> error + WmsGui" where
  "on_message tag val g =
     (if tag = QEmuTag_gpiod_enabled then
        Inr (g\<lparr>gpiod := (if drop_bit 3 val AND 1 \<noteq> 0 then 1 else 0)\<rparr>)
      else if tag = QEmuTag_moder then Inr (g\<lparr>mode := ''mode: '' @ format_0X 8 val\<rparr>)
      else if tag = QEmuTag_idr then
        (let g1 = g\<lparr>idr := ''     idr: '' @ format_0X 4 val\<rparr> in
         bind_err
           (if connecting g1 then
              (let g2 = g1\<lparr>connecting := False\<rparr> in
               bind_err (replay_pins [8, 9, 10, 11, 12, 13, 14] val (listener g2) (board g2))
                 (\<lambda>(b1, q1).
               bind_err (replay_buttons Board_buttons val b1) (\<lambda>b2.
                 Inr (g2\<lparr>board := b2, listener := q1\<rparr>))))
            else Inr g1)
           (\<lambda>g3. Inr (g3\<lparr>pins := map (\<lambda>i. drop_bit (8 + i) val AND 1) [0..<length (pins g3)]\<rparr>)))
      else if tag = QEmuTag_pin_low then
        bind_err (update_device val 0 (listener g) (board g))
          (\<lambda>(b', q'). Inr (g\<lparr>board := b', listener := q'\<rparr>))
      else if tag = QEmuTag_pin_high then
        bind_err (update_device val 1 (listener g) (board g))
          (\<lambda>(b', q'). Inr (g\<lparr>board := b', listener := q'\<rparr>))
      else if tag = QEmuTag_usart3_enabled then
        Inr (g\<lparr>usart3 := (if drop_bit 18 val AND 1 \<noteq> 0 then 1 else 0)\<rparr>)
      else if tag = QEmuTag_sr then Inr (g\<lparr>sr := ''sr: '' @ format_0X 4 val\<rparr>)
      else if tag = QEmuTag_cr1 then Inr (g\<lparr>cr1 := ''cr1: '' @ format_0X 4 val\<rparr>)
      else Inr g)"

text \<open>
  \<open>QEmuListener.__init__\<close> after a successful dial: an empty buffer, then \<open>noecho\<close> and
  \<open>listen\<close> are written.
\<close>

definition QEmuListener_init :: QEmuListener where
  "QEmuListener_init =
     QEmuListener_write ''listen ''
       (QEmuListener_write ''noecho '' \<lparr>recv_buffer = [], socket_out = []\<rparr>)"

text \<open>\<open>close\<close>: sets the stop flag, closes the sockets, destroys the window.\<close>

definition close :: "WmsGui \<Rightarrow> WmsGui" where
  "close g = g\<lparr>stopping := True, destroyed := True\<rparr>"

text \<open>
  \<open>do_connect\<close>. \<open>dialled\<close> says whether \<open>socket.create_connection\<close> succeeded (otherwise
  the constructor raises WmsError), \<open>answer\<close> is what \<open>messagebox.askokcancel\<close> returns and
  \<open>now\<close> the time shown by \<open>do_warning\<close>.
\<close>

definition do_connect :: "bool \<Rightarrow> bool \<Rightarrow> string \<Rightarrow> WmsGui \<Rightarrow> WmsGui" where
  "do_connect dialled answer now g =
     (let g1 = (if dialled then
                  (let ga = g\<lparr>listener := Some QEmuListener_init\<rparr>;
                       gb = warning ''Connected to QEMU'' ga;
                       gc = gb\<lparr>buttons_connected := True\<rparr>
                   in gc\<lparr>timers := timers gc + 1\<rparr>)
                else if \<not> answer then close g
                else do_warning now (''Cannot connect to QEMU on '' @ host g) g)
      in if \<not> stopping g1 then g1\<lparr>cursor := []\<rparr> else g1)"

text \<open>\<open>do_query_qemu\<close>: register queries for the banks known to be enabled.\<close>

definition do_query_qemu :: "WmsGui \<Rightarrow> error + WmsGui" where
  "do_query_qemu g =
     bind_err (if gpiod g \<noteq> 0
               then bind_err (listener_write ''D0? '' g) (listener_write ''D4? '')
               else Inr g) (\<lambda>g1.
       if usart3 g1 \<noteq> 0
       then bind_err (listener_write ''U0? '' g1) (listener_write ''U3? '')
       else Inr g1)"

text \<open>
  \<open>do_poll_serial\<close>, given the results of the successive \<open>recv\<close> calls of this pass; when
  they are used up the socket has nothing more (\<open>BlockingIOError\<close>).
\<close>

fun do_poll_serial :: "recv_result list \<Rightarrow> WmsGui \<Rightarrow> error + WmsGui" where
  "do_poll_serial [] g = Inr g"
| "do_poll_serial (r # rs) g =
     (if serial g = None then Inr g
      else bind_err (QEmuSerial_read r) (\<lambda>text.
             case text of
               None \<Rightarrow> Inr g
             | Some t \<Rightarrow> if t = [] then Inr g else do_poll_serial rs (g\<lparr>putty := putty g @ t\<rparr>)))"

text \<open>
  \<open>on_timer_running\<close>, one tick of the scheduler. It does not call \<open>do_check_status\<close>.
  An exception leaves the handler before it re-arms the timer.
\<close>

definition on_timer_running :: "recv_result list \<Rightarrow> WmsGui \<Rightarrow> error + WmsGui" where
  "on_timer_running serial_rx g =
     bind_err (do_poll_serial serial_rx (g\<lparr>timers := timers g - 1\<rparr>)) (\<lambda>g1.
     bind_err (do_query_qemu g1) (\<lambda>g2.
     bind_err (animate (board g2)) (\<lambda>b3.
       let g3 = g2\<lparr>board := b3\<rparr> in
       bind_err (if listener g3 \<noteq> None then
                   bind_err (listener_write Board_rcc_ahbenr g3) (\<lambda>g4.
                     if serial g4 \<noteq> None then listener_write Board_rcc_apb1enr g4 else Inr g4)
                 else Inr g3) (\<lambda>g5.
         Inr (if \<not> stopping g5 then g5\<lparr>timers := timers g5 + 1\<rparr> else g5)))))"

text \<open>\<open>on_b1_down\<close> and \<open>on_b1_up\<close>: the mouse button over \<open>self.button\<close>.\<close>

definition on_b1_down :: "WmsGui \<Rightarrow> error + WmsGui" where
  "on_b1_down g =
     (case button g of
        None \<Rightarrow> Inr g
      | Some bt \<Rightarrow>
          bind_err (button_down bt (listener g) (board g)) (\<lambda>(b', q').
            Inr (g\<lparr>board := b', listener := q'\<rparr>)))"

definition on_b1_up :: "WmsGui \<Rightarrow> error + WmsGui" where
  "on_b1_up g =
     (case button g of
        None \<Rightarrow> Inr g
      | Some bt \<Rightarrow>
          (let g1 = (if take 5 (btn_up bt) = ''reset'' then g\<lparr>gpiod := 0\<rparr> else g) in
           bind_err (button_up bt (listener g1) (board g1)) (\<lambda>(b', q').
             Inr (g1\<lparr>board := b', listener := q'\<rparr>))))"

text \<open>\<open>find_button\<close> and \<open>on_move\<close>: the first button whose bounding square holds the pointer.\<close>

definition find_button :: "int \<Rightarrow> int \<Rightarrow> Button option" where
  "find_button px py =
     find (\<lambda>bt. btn_x bt - btn_radius bt \<le> px \<and> px \<le> btn_x bt + btn_radius bt \<and>
                btn_y bt - btn_radius bt \<le> py \<and> py \<le> btn_y bt + btn_radius bt) Board_buttons"

definition on_move :: "int \<Rightarrow> int \<Rightarrow> WmsGui \<Rightarrow> WmsGui" where
  "on_move px py g =
     (let bt = find_button px py in
      if bt \<noteq> button g
      then g\<lparr>cursor := (if bt \<noteq> None then ''hand2'' else []), button := bt\<rparr>
      else g)"

section \<open>The Tk event loop\<close>

text \<open>
  The handlers above run one at a time on the Tk main loop. An event is one callback that
  Tk delivers: a scheduled \<open>do_connect\<close> (with the outcome of the dial, the answer to the
  dialog and the clock), a \<open><<message>>\<close> event queued by the listener thread, a timer
  tick (with what the serial socket has to give), the mouse, or the oldest pending
  \<open>do_warning\<close> (with the clock).
\<close>

datatype gui_event =
    Ev_connect bool bool string
  | Ev_message int int
  | Ev_timer "recv_result list"
  | Ev_b1_down
  | Ev_b1_up
  | Ev_move int int
  | Ev_do_warning string

fun dispatch :: "gui_event \<Rightarrow> WmsGui \<Rightarrow> error + WmsGui" where
  "dispatch (Ev_connect dialled answer now) g = Inr (do_connect dialled answer now g)"
| "dispatch (Ev_message tag val) g = on_message tag val g"
| "dispatch (Ev_timer serial_rx) g = on_timer_running serial_rx g"
| "dispatch Ev_b1_down g = on_b1_down g"
| "dispatch Ev_b1_up g = on_b1_up g"
| "dispatch (Ev_move px py) g = Inr (on_move px py g)"
| "dispatch (Ev_do_warning now) g =
     (case after_warnings g of
        [] \<Rightarrow> Inr g
      | msg # rest \<Rightarrow> Inr (do_warning now msg (g\<lparr>after_warnings := rest\<rparr>)))"

text \<open>A run of events; it is followed up to the first exception of a handler.\<close>

fun run :: "gui_event list \<Rightarrow> WmsGui \<Rightarrow> error + WmsGui" where
  "run [] g = Inr g"
| "run (ev # evs) g = bind_err (dispatch ev g) (run evs)"

text \<open>An Idr reply: a \<open><<message>>\<close> event whose tag is \<open>QEmuTag.idr\<close>.\<close>

fun is_idr_event :: "gui_event \<Rightarrow> bool" where
  "is_idr_event (Ev_message tag val) = (tag = QEmuTag_idr)"
| "is_idr_event ev = False"

section \<open>Basic facts\<close>

lemma bind_err_simps [simp]:
  "bind_err (Inr v) f = f v"
  "bind_err (Inl e) f = Inl e"
  by (simp_all add: bind_err_def)

section \<open>Claims about \<open>WmsBoard.update_device\<close>\<close>

text \<open>
  C10. For every pin index outside 8..14 (for example pins 0..7 or 15) and every level,
  \<open>update_device\<close> is a no-op: it raises nothing, the board (segment mask, motor flag,
  sprite frame, direction, latch flag, every latched flag and the canvas) is returned
  unchanged, and nothing is written to the listener.
\<close>

theorem update_device_other_pin_noop:
  "pin < 8 \<or> 14 < pin \<Longrightarrow> update_device pin level qemu b = Inr (b, qemu)"
  by (auto simp: update_device_def)

theorem update_device_other_pin_noop_witness:
  "((15::int) < 8 \<or> 14 < (15::int)) \<and>
   update_device 15 1 (Some \<lparr>recv_buffer = [], socket_out = []\<rparr>) WmsBoard_init
     = Inr (WmsBoard_init, Some \<lparr>recv_buffer = [], socket_out = []\<rparr>)"
  using update_device_other_pin_noop
    [of 15 1 "Some \<lparr>recv_buffer = [], socket_out = []\<rparr>" WmsBoard_init]
  by simp

lemmas board_defs =
  overlays_item_def overlays_get_def Board_overlays_def mk_Overlay_def
  py_getitem_def py_setitem_def create_image_def Board_buttons_def mk_Button_def
  latched_set_def latched_get_def QEmuListener_write_def render_and_send_def
  update_button_def

lemma release_latches_buttons:
  assumes "6 \<le> length (latched b)"
  shows "release_latches Board_buttons b qemu =
     Inr (b\<lparr>latched := (latched b)[1 := False, 2 := False, 3 := False, 4 := False, 5 := False]\<rparr>,
          map_option
            (\<lambda>q. q\<lparr>socket_out := socket_out q @
                       [''D0d1 '', ''D0d2 '', ''D0d3 '', ''D0d4 '', ''D0d5 '']\<rparr>) qemu)"
  using assms by (cases qemu) (simp_all add: board_defs)

lemma reset_ps_all:
  "reset_ps [''PS1'', ''PS2'', ''PS3''] b =
     Inr (b\<lparr>canvas := canvas b @
            [(702, 26, ''ps1-0.png''), (667, 26, ''ps2-0.png''), (632, 26, ''ps3-0.png'')]\<rparr>)"
  by (simp add: board_defs)

text \<open>
  C7, as the code has it. \<open>update_device 14 level\<close> sets the latch flag to \<open>level \<noteq> 0\<close>.
  Whenever the level is 0, whatever the latch flag was before (so on a 1-to-0 transition
  and equally when the latch was already off), the latched flags of the five latch-style
  buttons (pins 1 to 5) are cleared, their \<open>up\<close> commands are written in table order when a
  listener is attached, and the PS1, PS2 and PS3 overlays are drawn with their unlatched
  image. With a non-zero level nothing but the latch flag changes.
\<close>

theorem update_device_pin14:
  assumes "6 \<le> length (latched b)"
  shows "update_device 14 level qemu b =
     (if level \<noteq> 0 then Inr (b\<lparr>latch := True\<rparr>, qemu)
      else Inr (b\<lparr>latch := False,
                  latched := (latched b)[1 := False, 2 := False, 3 := False, 4 := False, 5 := False],
                  canvas := canvas b @
                    [(702, 26, ''ps1-0.png''), (667, 26, ''ps2-0.png''), (632, 26, ''ps3-0.png'')]\<rparr>,
                map_option
                  (\<lambda>q. q\<lparr>socket_out := socket_out q @
                             [''D0d1 '', ''D0d2 '', ''D0d3 '', ''D0d4 '', ''D0d5 '']\<rparr>) qemu))"
  using assms
  by (simp add: update_device_def release_latches_buttons reset_ps_all
      del: reset_ps.simps release_latches.simps)

theorem update_device_pin14_witness:
  "6 \<le> length (latched WmsBoard_init) \<and>
   update_device 14 0 (Some QEmuListener_init) WmsBoard_init =
     Inr (WmsBoard_init\<lparr>canvas :=
            [(702, 26, ''ps1-0.png''), (667, 26, ''ps2-0.png''), (632, 26, ''ps3-0.png'')]\<rparr>,
          Some (QEmuListener_init\<lparr>socket_out :=
            [''noecho '', ''listen '', ''D0d1 '', ''D0d2 '', ''D0d3 '', ''D0d4 '', ''D0d5 '']\<rparr>))"
  using update_device_pin14 [of WmsBoard_init 0 "Some QEmuListener_init"]
  by (simp add: WmsBoard_init_def Board_buttons_def QEmuListener_init_def QEmuListener_write_def)

text \<open>
  The claim as stated fails: on the initial board the latch is already off, and applying
  pin 14 with level 0 still writes the five \<open>up\<close> commands and redraws the overlays.
\<close>

theorem pin14_low_to_low_counterexample:
  "latch WmsBoard_init = False \<and>
   update_device 14 0 (Some \<lparr>recv_buffer = [], socket_out = []\<rparr>) WmsBoard_init =
     Inr (WmsBoard_init\<lparr>canvas :=
            [(702, 26, ''ps1-0.png''), (667, 26, ''ps2-0.png''), (632, 26, ''ps3-0.png'')]\<rparr>,
          Some \<lparr>recv_buffer = [],
                socket_out = [''D0d1 '', ''D0d2 '', ''D0d3 '', ''D0d4 '', ''D0d5 '']\<rparr>)"
  by (simp add: update_device_def WmsBoard_init_def board_defs)

section \<open>Claims about \<open>button_down\<close> and \<open>button_up\<close>\<close>

lemma door_button_unique:
  "bt \<in> set Board_buttons \<Longrightarrow> btn_style bt = Style_door \<Longrightarrow> bt = Board_buttons ! 1"
  by (auto simp: Board_buttons_def mk_Button_def)

text \<open>
  C6. For a door-style button of the table that is not latched, with a listener attached:
  the first press latches it, draws the open image and writes the \<open>down\<close> command; the
  first release changes nothing at all; the second press only clears the latched flag
  (nothing drawn, nothing written); the second release draws the closed image and writes
  the \<open>up\<close> command. Exactly two commands are written and the latched flags end as they
  began.
\<close>

theorem door_press_release_twice:
  assumes "bt \<in> set Board_buttons" and "btn_style bt = Style_door"
    and "latched_get b (btn_pin bt) = Inr False"
  shows "\<exists>b1 q1 b3 b4 q4.
     button_down bt (Some q) b = Inr (b1, Some q1) \<and>
       socket_out q1 = socket_out q @ [btn_down bt] \<and>
       canvas b1 = canvas b @ [(711, 301, ''door-open.png'')] \<and>
       latched_get b1 (btn_pin bt) = Inr True \<and>
     button_up bt (Some q1) b1 = Inr (b1, Some q1) \<and>
     button_down bt (Some q1) b1 = Inr (b3, Some q1) \<and>
       canvas b3 = canvas b1 \<and> latched_get b3 (btn_pin bt) = Inr False \<and>
     button_up bt (Some q1) b3 = Inr (b4, Some q4) \<and>
       socket_out q4 = socket_out q @ [btn_down bt, btn_up bt] \<and>
       canvas b4 = canvas b @ [(711, 301, ''door-open.png''), (711, 301, ''door-closed.png'')] \<and>
       latched b4 = latched b \<and> latched_get b4 (btn_pin bt) = Inr False \<and>
     btn_down bt \<noteq> [] \<and> btn_up bt \<noteq> []"
proof -
  have bt: "bt = Board_buttons ! 1"
    using assms(1,2) by (rule door_button_unique)
  have l0: "latched b \<noteq> []" "\<not> latched b ! 0"
    using assms(3) unfolding bt
    by (auto simp: board_defs split: if_splits)
  show ?thesis
    unfolding bt using l0
    by (simp add: button_down_def button_up_def board_defs list_update_same_conv)
qed

theorem door_press_release_twice_witness:
  "Board_buttons ! 1 \<in> set Board_buttons \<and> btn_style (Board_buttons ! 1) = Style_door \<and>
   latched_get WmsBoard_init (btn_pin (Board_buttons ! 1)) = Inr False \<and>
   (\<exists>b1 q1 b4 q4.
      button_down (Board_buttons ! 1) (Some QEmuListener_init) WmsBoard_init = Inr (b1, Some q1) \<and>
      socket_out q1 = [''noecho '', ''listen '', ''D0L0 ''] \<and>
      button_up (Board_buttons ! 1) (Some q1) b1 = Inr (b1, Some q1) \<and>
      (\<exists>b3. button_down (Board_buttons ! 1) (Some q1) b1 = Inr (b3, Some q1) \<and>
            button_up (Board_buttons ! 1) (Some q1) b3 = Inr (b4, Some q4)) \<and>
      socket_out q4 = [''noecho '', ''listen '', ''D0L0 '', ''D0d0 ''] \<and>
      latched b4 = latched WmsBoard_init)"
proof -
  have h1: "Board_buttons ! 1 \<in> set Board_buttons"
    by (simp add: Board_buttons_def)
  have h2: "btn_style (Board_buttons ! 1) = Style_door"
    by (simp add: Board_buttons_def mk_Button_def)
  have h3: "latched_get WmsBoard_init (btn_pin (Board_buttons ! 1)) = Inr False"
    by (simp add: WmsBoard_init_def board_defs)
  have cmds: "btn_down (Board_buttons ! 1) = ''D0L0 ''" "btn_up (Board_buttons ! 1) = ''D0d0 ''"
    "socket_out QEmuListener_init = [''noecho '', ''listen '']"
    by (simp_all add: Board_buttons_def mk_Button_def QEmuListener_init_def QEmuListener_write_def)
  from door_press_release_twice [OF h1 h2 h3, of QEmuListener_init]
  obtain b1 q1 b3 b4 q4 where
    "button_down (Board_buttons ! 1) (Some QEmuListener_init) WmsBoard_init = Inr (b1, Some q1)"
    "socket_out q1 = socket_out QEmuListener_init @ [btn_down (Board_buttons ! 1)]"
    "button_up (Board_buttons ! 1) (Some q1) b1 = Inr (b1, Some q1)"
    "button_down (Board_buttons ! 1) (Some q1) b1 = Inr (b3, Some q1)"
    "button_up (Board_buttons ! 1) (Some q1) b3 = Inr (b4, Some q4)"
    "socket_out q4 = socket_out QEmuListener_init
        @ [btn_down (Board_buttons ! 1), btn_up (Board_buttons ! 1)]"
    "latched b4 = latched WmsBoard_init"
    by blast
  then show ?thesis
    using h1 h2 h3 unfolding cmds by auto
qed

section \<open>Claims about the button table\<close>

text \<open>
  C9, as the code has it. The table gives the reset button (plain style, no pin) the empty
  \<open>down\<close> command and the \<open>up\<close> command \<open>reset \<close>: with the pointer on reset and a listener
  attached, pressing the mouse button writes nothing and changes nothing, and releasing it
  clears the GPIOD check box and writes \<open>reset \<close>. The other seven entries carry the
  command strings listed here.
\<close>

theorem reset_button_commands:
  assumes "button g = Some (Board_buttons ! 0)" and "listener g = Some q"
  shows "map (\<lambda>bt. (btn_name bt, btn_pin bt, btn_style bt, btn_down bt, btn_up bt)) Board_buttons =
      [(''reset'', None, Style_plain, [], ''reset ''),
       (''door'', Some 0, Style_door, ''D0L0 '', ''D0d0 ''),
       (''PS1'', Some 1, Style_latch, ''D0L1 '', ''D0d1 ''),
       (''PS2'', Some 2, Style_latch, ''D0L2 '', ''D0d2 ''),
       (''PS3'', Some 3, Style_latch, ''D0L3 '', ''D0d3 ''),
       (''cancel'', Some 4, Style_latch, ''D0L4 '', ''D0d4 ''),
       (''accept'', Some 5, Style_latch, ''D0L5 '', ''D0d5 ''),
       (''motor'', Some 6, Style_plain, ''D0L6 '', ''D0d6 '')] \<and>
    on_b1_down g = Inr g \<and>
    on_b1_up g = Inr (g\<lparr>gpiod := 0,
                         listener := Some (q\<lparr>socket_out := socket_out q @ [''reset '']\<rparr>)\<rparr>)"
  using assms
  by (simp add: on_b1_down_def on_b1_up_def button_down_def button_up_def board_defs)

theorem reset_button_commands_witness:
  "button ((WmsGui_init ''localhost'')\<lparr>button := find_button 32 200, listener := Some QEmuListener_init\<rparr>)
     = Some (Board_buttons ! 0) \<and>
   listener ((WmsGui_init ''localhost'')\<lparr>button := find_button 32 200, listener := Some QEmuListener_init\<rparr>)
     = Some QEmuListener_init \<and>
   on_b1_down ((WmsGui_init ''localhost'')\<lparr>button := find_button 32 200, listener := Some QEmuListener_init\<rparr>)
     = Inr ((WmsGui_init ''localhost'')\<lparr>button := find_button 32 200, listener := Some QEmuListener_init\<rparr>) \<and>
   on_b1_up ((WmsGui_init ''localhost'')\<lparr>button := find_button 32 200, listener := Some QEmuListener_init\<rparr>)
     = Inr ((WmsGui_init ''localhost'')\<lparr>button := find_button 32 200,
             listener := Some (QEmuListener_init\<lparr>socket_out := [''noecho '', ''listen '', ''reset '']\<rparr>)\<rparr>)"
proof -
  have fb: "find_button 32 200 = Some (Board_buttons ! 0)"
    by (simp add: find_button_def Board_buttons_def mk_Button_def)
  have so: "socket_out QEmuListener_init = [''noecho '', ''listen '']"
    by (simp add: QEmuListener_init_def QEmuListener_write_def)
  have gp: "gpiod (WmsGui_init ''localhost'') = 0"
    by (simp add: WmsGui_init_def warning_def)
  show ?thesis
    using reset_button_commands [of "(WmsGui_init ''localhost'')\<lparr>button := find_button 32 200, listener := Some QEmuListener_init\<rparr>" QEmuListener_init]
    by (simp add: fb so gp)
qed

text \<open>
  The claim as stated fails: the \<open>down\<close> command of reset is not \<open>reset \<close>, its \<open>up\<close> command is
  not empty, and it is the release, not the press, that writes \<open>reset \<close>.
\<close>

theorem reset_button_counterexample:
  "btn_down (Board_buttons ! 0) \<noteq> ''reset '' \<and> btn_up (Board_buttons ! 0) \<noteq> [] \<and>
   button_down (Board_buttons ! 0) (Some \<lparr>recv_buffer = [], socket_out = []\<rparr>) WmsBoard_init
     = Inr (WmsBoard_init, Some \<lparr>recv_buffer = [], socket_out = []\<rparr>) \<and>
   button_up (Board_buttons ! 0) (Some \<lparr>recv_buffer = [], socket_out = []\<rparr>) WmsBoard_init
     = Inr (WmsBoard_init, Some \<lparr>recv_buffer = [], socket_out = [''reset '']\<rparr>)"
  by (simp add: button_down_def button_up_def board_defs)

section \<open>Claims about the resynchronisation in \<open>on_message\<close>\<close>

lemma bit_test_iff: "(drop_bit n (v::int) AND 1 \<noteq> 0) = bit v n"
  by (simp add: bit_iff_odd_drop_bit and_one_eq mod_2_eq_odd)

lemma overlay_images_two:
  "overlays_get nm = Some ov \<Longrightarrow> 2 \<le> length (ov_images ov)"
  by (auto simp: overlays_get_def Board_overlays_def mk_Overlay_def split: if_splits)

lemma update_button_canvas:
  assumes "level = 0 \<or> level = 1"
  shows "\<exists>c. update_button bt level b = Inr (b\<lparr>canvas := c\<rparr>)"
proof (cases "overlays_get (btn_name bt)")
  case None
  then have "update_button bt level b = Inr (b\<lparr>canvas := canvas b\<rparr>)"
    by (simp add: update_button_def)
  then show ?thesis by blast
next
  case (Some ov)
  from overlay_images_two [OF Some] assms
  show ?thesis
    by (auto simp: update_button_def Some py_getitem_def create_image_def)
qed

lemma render_and_send_None:
  assumes "level = 0 \<or> level = 1"
  shows "\<exists>c. render_and_send bt level cmd None b = Inr (b\<lparr>canvas := c\<rparr>, None)"
proof -
  from update_button_canvas [OF assms] obtain c where
    "update_button bt level b = Inr (b\<lparr>canvas := c\<rparr>)" by blast
  then show ?thesis by (auto simp: render_and_send_def)
qed

lemma button_down_None:
  assumes "btn_pin bt = Some p" and "0 \<le> p" and "p < int (length (latched b))"
  shows "\<exists>c. button_down bt None b =
     Inr (b\<lparr>canvas := c,
            latched := (case btn_style bt of
                          Style_latch \<Rightarrow> (latched b)[nat p := latch b]
                        | Style_door \<Rightarrow> (latched b)[nat p := \<not> latched b ! nat p]
                        | Style_plain \<Rightarrow> latched b)\<rparr>, None)"
proof (cases "btn_style bt")
  case Style_plain
  from render_and_send_None [of 1 bt "btn_down bt" b] obtain c where
    "render_and_send bt 1 (btn_down bt) None b = Inr (b\<lparr>canvas := c\<rparr>, None)" by auto
  then have "button_down bt None b = Inr (b\<lparr>canvas := c, latched := latched b\<rparr>, None)"
    by (simp add: button_down_def Style_plain)
  then show ?thesis unfolding Style_plain by (intro exI [of _ "c"]) simp
next
  case Style_latch
  show ?thesis
  proof (cases "latch b \<and> latched b ! nat p")
    case True
    then have "(latched b)[nat p := True] = latched b"
      by (metis list_update_id)
    with True have "button_down bt None b = Inr (b\<lparr>canvas := canvas b, latched := (latched b)[nat p := latch b]\<rparr>, None)"
      using assms by (simp add: button_down_def Style_latch latched_get_def py_getitem_def)
    then show ?thesis unfolding Style_latch by (intro exI [of _ "canvas b"]) simp
  next
    case False
    from render_and_send_None [of 1 bt "btn_down bt" "b\<lparr>latched := (latched b)[nat p := latch b]\<rparr>"]
    obtain c where "render_and_send bt 1 (btn_down bt) None (b\<lparr>latched := (latched b)[nat p := latch b]\<rparr>)
        = Inr (b\<lparr>latched := (latched b)[nat p := latch b], canvas := c\<rparr>, None)" by auto
    then have "button_down bt None b = Inr (b\<lparr>canvas := c, latched := (latched b)[nat p := latch b]\<rparr>, None)"
      using assms False
      by (auto simp: button_down_def Style_latch latched_get_def latched_set_def py_getitem_def py_setitem_def)
    then show ?thesis unfolding Style_latch by (intro exI [of _ "c"]) simp
  qed
next
  case Style_door
  show ?thesis
  proof (cases "latched b ! nat p")
    case True
    then have "button_down bt None b = Inr (b\<lparr>canvas := canvas b, latched := (latched b)[nat p := \<not> latched b ! nat p]\<rparr>, None)"
      using assms by (simp add: button_down_def Style_door latched_get_def latched_set_def py_getitem_def py_setitem_def)
    then show ?thesis unfolding Style_door by (intro exI [of _ "canvas b"]) simp
  next
    case False
    from render_and_send_None [of 1 bt "btn_down bt" "b\<lparr>latched := (latched b)[nat p := True]\<rparr>"]
    obtain c where "render_and_send bt 1 (btn_down bt) None (b\<lparr>latched := (latched b)[nat p := True]\<rparr>)
        = Inr (b\<lparr>latched := (latched b)[nat p := True], canvas := c\<rparr>, None)" by auto
    then have "button_down bt None b = Inr (b\<lparr>canvas := c, latched := (latched b)[nat p := \<not> latched b ! nat p]\<rparr>, None)"
      using assms False
      by (auto simp: button_down_def Style_door latched_get_def latched_set_def py_getitem_def py_setitem_def)
    then show ?thesis unfolding Style_door by (intro exI [of _ "c"]) simp
  qed
qed

lemma button_up_None:
  assumes "btn_pin bt = Some p" and "0 \<le> p" and "p < int (length (latched b))"
  shows "\<exists>c. button_up bt None b = Inr (b\<lparr>canvas := c\<rparr>, None)"
proof -
  from render_and_send_None [of 0 bt "btn_up bt" b] obtain c where
    c: "render_and_send bt 0 (btn_up bt) None b = Inr (b\<lparr>canvas := c\<rparr>, None)" by auto
  have same: "Inr (b, None) = (Inr (b\<lparr>canvas := canvas b\<rparr>, None) :: error + WmsBoard \<times> QEmuListener option)"
    by simp
  show ?thesis
    using assms c
    apply (cases "btn_style bt")
      apply (auto simp: button_up_def latched_get_def py_getitem_def)
     apply (rule exI [of _ "canvas b"], simp)+
    done
qed

lemma replay_buttons_latched:
  assumes "\<forall>bt \<in> set bts. \<forall>p. btn_pin bt = Some p \<longrightarrow> 0 \<le> p \<and> p < int (length (latched b))"
    and "latch b = lt"
  shows "\<exists>c. replay_buttons bts val b =
     Inr (b\<lparr>canvas := c,
            latched := foldl (\<lambda>ls bt.
                case btn_pin bt of
                  None \<Rightarrow> ls
                | Some p \<Rightarrow>
                    if bit val (nat p) then
                      (case btn_style bt of
                         Style_latch \<Rightarrow> ls[nat p := lt]
                       | Style_door \<Rightarrow> ls[nat p := \<not> ls ! nat p]
                       | Style_plain \<Rightarrow> ls)
                    else ls) (latched b) bts\<rparr>)"
  using assms
proof (induction bts arbitrary: b)
  case Nil
  show ?case by (intro exI [of _ "canvas b"]) simp
next
  case (Cons bt bts)
  show ?case
  proof (cases "btn_pin bt")
    case None
    from Cons.IH [of b] Cons.prems show ?thesis by (simp add: None)
  next
    case (Some p)
    with Cons.prems have rng: "0 \<le> p" "p < int (length (latched b))" by auto
    show ?thesis
    proof (cases "bit val (nat p)")
      case False
      from Cons.IH [of b] Cons.prems show ?thesis by (simp add: Some False bit_test_iff)
    next
      case True
      define L where "L = (case btn_style bt of
                          Style_latch \<Rightarrow> (latched b)[nat p := lt]
                        | Style_door \<Rightarrow> (latched b)[nat p := \<not> latched b ! nat p]
                        | Style_plain \<Rightarrow> latched b)"
      have lenL: "length L = length (latched b)"
        by (simp add: L_def split: ButtonStyle.splits)
      from button_down_None [OF Some rng] obtain c1 where
        d: "button_down bt None b = Inr (b\<lparr>canvas := c1, latched := L\<rparr>, None)"
        unfolding L_def Cons.prems(2) by blast
      have "\<exists>c. button_up bt None (b\<lparr>canvas := c1, latched := L\<rparr>) =
              Inr (b\<lparr>canvas := c1, latched := L\<rparr>\<lparr>canvas := c\<rparr>, None)"
        using Some rng lenL by (intro button_up_None [of bt p]) simp_all
      then obtain c2 where
        u0: "button_up bt None (b\<lparr>canvas := c1, latched := L\<rparr>) =
               Inr (b\<lparr>canvas := c1, latched := L\<rparr>\<lparr>canvas := c2\<rparr>, None)"
        by blast
      have u: "button_up bt None (b\<lparr>canvas := c1, latched := L\<rparr>) = Inr (b\<lparr>canvas := c2, latched := L\<rparr>, None)"
        using u0 by simp
      have "\<forall>bt \<in> set bts. \<forall>p. btn_pin bt = Some p \<longrightarrow>
              0 \<le> p \<and> p < int (length (latched (b\<lparr>canvas := c2, latched := L\<rparr>)))"
        using Cons.prems lenL by simp
      moreover have "latch (b\<lparr>canvas := c2, latched := L\<rparr>) = lt"
        using Cons.prems(2) by simp
      ultimately obtain c3 where
        "replay_buttons bts val (b\<lparr>canvas := c2, latched := L\<rparr>) =
           Inr (b\<lparr>canvas := c2, latched := L\<rparr>\<lparr>canvas := c3, latched := foldl (\<lambda>ls bt.
                case btn_pin bt of
                  None \<Rightarrow> ls
                | Some p \<Rightarrow>
                    if bit val (nat p) then
                      (case btn_style bt of
                         Style_latch \<Rightarrow> ls[nat p := lt]
                       | Style_door \<Rightarrow> ls[nat p := \<not> ls ! nat p]
                       | Style_plain \<Rightarrow> ls)
                    else ls) (latched (b\<lparr>canvas := c2, latched := L\<rparr>)) bts\<rparr>)"
        using Cons.IH by blast
      then show ?thesis
        by (intro exI [of _ c3]) (simp add: Some True bit_test_iff d u L_def [symmetric])
    qed
  qed
qed

lemma sseg_or_bound:
  assumes "0 \<le> (s::int)" and "s < 16" and "k < 4"
  shows "0 \<le> s OR push_bit k 1 \<and> s OR push_bit k 1 < 16"
proof -
  have "(2::int) ^ k < 2 ^ 4"
    using assms(3) by (intro power_strict_increasing) simp_all
  then have "(push_bit k 1 :: int) < 2 ^ 4"
    by (simp add: push_bit_eq_mult)
  with assms(1,2) have "s OR push_bit k 1 < 2 ^ 4"
    by (intro OR_upper) simp_all
  moreover have "0 \<le> s OR push_bit k 1"
    using assms(1) by simp
  ultimately show ?thesis by simp
qed

lemma update_device_high:
  assumes "8 \<le> pin" and "pin \<le> 14"
    and "0 \<le> sseg b" and "sseg b < 16" and "0 \<le> sprite b" and "sprite b < 3"
  shows "\<exists>c s m d. update_device pin 1 qemu b =
            Inr (b\<lparr>canvas := c, sseg := s, motor := m, direction := d,
                   latch := (latch b \<or> pin = 14)\<rparr>, qemu) \<and> 0 \<le> s \<and> s < 16"
proof -
  consider "8 \<le> pin \<and> pin \<le> 11" | "pin = 12" | "pin = 13" | "pin = 14"
    using assms(1,2) by linarith
  then show ?thesis
  proof cases
    case 1
    then have k: "nat (pin - 8) < 4" by arith
    let ?s = "sseg b OR push_bit (nat (pin - 8)) 1"
    from sseg_or_bound [OF assms(3,4) k] have sb: "0 \<le> ?s" "?s < 16" by simp_all
    have xy: "\<exists>px py. py_getitem Board_led_xy (pin - 8) = Inr (px, py)"
      using 1 by (simp add: py_getitem_def Board_led_xy_def)
    then obtain px py where xy: "py_getitem Board_led_xy (pin - 8) = Inr (px, py)" by blast
    have img1: "\<And>i0 i1 :: string. py_getitem [i0, i1] 1 = Inr i1"
      by (simp add: py_getitem_def)
    have img2: "\<And>(xs :: string list) i. length xs = 16 \<Longrightarrow> 0 \<le> i \<Longrightarrow> i < 16 \<Longrightarrow>
        py_getitem xs i = Inr (xs ! nat i)"
      by (simp add: py_getitem_def)
    have "update_device pin 1 qemu b =
        Inr (b\<lparr>canvas := canvas b @ [(px, py, ''led-1.png''),
                   (550, 289, ov_images (snd (Board_overlays ! 4)) ! nat ?s)],
               sseg := ?s, motor := motor b, direction := direction b,
               latch := (latch b \<or> pin = 14)\<rparr>, qemu)"
      using 1 sb
      by (simp add: update_device_def xy img1 img2 overlays_item_def overlays_get_def
          Board_overlays_def mk_Overlay_def create_image_def)
    with sb show ?thesis by blast
  next
    case 2
    have "\<exists>img. py_getitem [''motor-00.png'', ''motor-30.png'', ''motor-60.png''] (sprite b) = Inr img"
      using assms(5,6) by (simp add: py_getitem_def)
    then obtain img where "py_getitem [''motor-00.png'', ''motor-30.png'', ''motor-60.png''] (sprite b) = Inr img"
      by blast
    then have "update_device pin 1 qemu b =
        Inr (b\<lparr>canvas := canvas b @ [(592, 171, img)], sseg := sseg b, motor := True,
               direction := direction b, latch := (latch b \<or> pin = 14)\<rparr>, qemu)"
      using 2 
      by (simp add: update_device_def overlays_item_def Board_overlays_def
          mk_Overlay_def create_image_def)
    with assms(3,4) show ?thesis by blast
  next
    case 3
    then have "update_device pin 1 qemu b =
        Inr (b\<lparr>canvas := canvas b, sseg := sseg b, motor := motor b,
               direction := 1, latch := (latch b \<or> pin = 14)\<rparr>, qemu)"
      by (simp add: update_device_def)
    with assms(3,4) show ?thesis by blast
  next
    case 4
    then have "update_device pin 1 qemu b =
        Inr (b\<lparr>canvas := canvas b, sseg := sseg b, motor := motor b,
               direction := direction b, latch := (latch b \<or> pin = 14)\<rparr>, qemu)"
      by (simp add: update_device_def)
    with assms(3,4) show ?thesis by blast
  qed
qed

lemma replay_pins_high:
  assumes "\<forall>p \<in> set ps. 8 \<le> p \<and> p \<le> 14"
    and "0 \<le> sseg b" and "sseg b < 16" and "0 \<le> sprite b" and "sprite b < 3"
  shows "\<exists>c s m d. replay_pins ps val qemu b =
            Inr (b\<lparr>canvas := c, sseg := s, motor := m, direction := d,
                   latch := (latch b \<or> (14 \<in> set ps \<and> bit val 14))\<rparr>, qemu)"
  using assms
proof (induction ps arbitrary: b)
  case Nil
  show ?case
    by (intro exI [of _ "canvas b"] exI [of _ "sseg b"] exI [of _ "motor b"]
        exI [of _ "direction b"]) simp
next
  case (Cons pin ps)
  show ?case
  proof (cases "bit val (nat pin)")
    case False
    then have eq: "(14 \<in> set (pin # ps) \<and> bit val 14) = (14 \<in> set ps \<and> bit val 14)"
      by auto
    have "\<exists>c s m d. replay_pins ps val qemu b =
            Inr (b\<lparr>canvas := c, sseg := s, motor := m, direction := d,
                   latch := (latch b \<or> (14 \<in> set ps \<and> bit val 14))\<rparr>, qemu)"
      using Cons.prems by (intro Cons.IH) simp_all
    then obtain c s m d where
      "replay_pins ps val qemu b =
            Inr (b\<lparr>canvas := c, sseg := s, motor := m, direction := d,
                   latch := (latch b \<or> (14 \<in> set ps \<and> bit val 14))\<rparr>, qemu)"
      by blast
    then have "replay_pins (pin # ps) val qemu b =
            Inr (b\<lparr>canvas := c, sseg := s, motor := m, direction := d,
                   latch := (latch b \<or> (14 \<in> set (pin # ps) \<and> bit val 14))\<rparr>, qemu)"
      unfolding eq using False by (simp add: bit_test_iff)
    then show ?thesis by blast
  next
    case True
    from Cons.prems have pin: "8 \<le> pin" "pin \<le> 14" by auto
    from update_device_high [OF pin Cons.prems(2-5), of qemu]
    obtain c s m d where
      ud: "update_device pin 1 qemu b =
             Inr (b\<lparr>canvas := c, sseg := s, motor := m, direction := d,
                    latch := (latch b \<or> pin = 14)\<rparr>, qemu)"
      and s: "0 \<le> s" "s < 16" by blast
    let ?b1 = "b\<lparr>canvas := c, sseg := s, motor := m, direction := d,
                    latch := (latch b \<or> pin = 14)\<rparr>"
    have "\<exists>c s m d. replay_pins ps val qemu ?b1 =
            Inr (?b1\<lparr>canvas := c, sseg := s, motor := m, direction := d,
                   latch := (latch ?b1 \<or> (14 \<in> set ps \<and> bit val 14))\<rparr>, qemu)"
      using Cons.prems s by (intro Cons.IH) simp_all
    then obtain c' s' m' d' where
      "replay_pins ps val qemu ?b1 =
            Inr (?b1\<lparr>canvas := c', sseg := s', motor := m', direction := d',
                   latch := (latch ?b1 \<or> (14 \<in> set ps \<and> bit val 14))\<rparr>, qemu)"
      by blast
    moreover have "(latch ?b1 \<or> (14 \<in> set ps \<and> bit val 14)) =
                   (latch b \<or> (14 \<in> set (pin # ps) \<and> bit val 14))"
      using True by auto
    ultimately have "replay_pins (pin # ps) val qemu b =
        Inr (b\<lparr>canvas := c', sseg := s', motor := m', direction := d',
               latch := (latch b \<or> (14 \<in> set (pin # ps) \<and> bit val 14))\<rparr>, qemu)"
      using True by (simp add: bit_test_iff ud)
    then show ?thesis by blast
  qed
qed

lemma Board_buttons_pins:
  "bt \<in> set Board_buttons \<Longrightarrow> btn_pin bt = Some p \<Longrightarrow> 0 \<le> p \<and> p < 8"
  by (auto simp: Board_buttons_def mk_Button_def)

lemma if_list_update: "(if c then ls[i := v] else ls) = ls[i := (if c then v else ls ! i)]"
  by simp

lemma seed_Board_buttons:
  assumes "length ls = 8"
  shows "foldl (\<lambda>ls bt.
                case btn_pin bt of
                  None \<Rightarrow> ls
                | Some p \<Rightarrow>
                    if bit val (nat p) then
                      (case btn_style bt of
                         Style_latch \<Rightarrow> ls[nat p := lt]
                       | Style_door \<Rightarrow> ls[nat p := \<not> ls ! nat p]
                       | Style_plain \<Rightarrow> ls)
                    else ls) ls Board_buttons =
         ls[0 := (if bit (val::int) 0 then \<not> ls ! 0 else ls ! 0),
            1 := (if bit val 1 then lt else ls ! 1),
            2 := (if bit val 2 then lt else ls ! 2),
            3 := (if bit val 3 then lt else ls ! 3),
            4 := (if bit val 4 then lt else ls ! 4),
            5 := (if bit val 5 then lt else ls ! 5)]"
  using assms
  by (simp add: Board_buttons_def mk_Button_def if_list_update split del: if_split cong: if_cong)

text \<open>
  C4, as the code has it. When an Idr value arrives while the resynchronisation is pending,
  on a board that satisfies the invariants of \<open>WmsBoard\<close> (eight latched flags, segment mask
  in 0..15, sprite in 0..2), the pass raises nothing and leaves the listener as it was, so
  no command is written. The latched flags are seeded through the button state machine:
  the door's flag is inverted when bit 0 is set; a latch-style button (pins 1 to 5) whose
  bit is set takes the value of the latch flag after the pin replay, that is the old latch
  flag or bit 14 of the value; the plain motor button (pin 6), the unused entry 7 and every
  button whose bit is clear keep their flag.
\<close>

theorem resync_seeds_latched:
  assumes "connecting g" and "length (latched (board g)) = 8"
    and "0 \<le> sseg (board g)" and "sseg (board g) < 16"
    and "0 \<le> sprite (board g)" and "sprite (board g) < 3"
  shows "\<exists>g'. on_message QEmuTag_idr val g = Inr g' \<and>
     listener g' = listener g \<and> \<not> connecting g' \<and>
     latch (board g') = (latch (board g) \<or> bit val 14) \<and>
     length (latched (board g')) = 8 \<and>
     latched (board g') ! 0 = (latched (board g) ! 0 \<noteq> bit val 0) \<and>
     (\<forall>p \<in> {1, 2, 3, 4, 5}. latched (board g') ! p =
        (if bit val p then latch (board g) \<or> bit val 14 else latched (board g) ! p)) \<and>
     latched (board g') ! 6 = latched (board g) ! 6 \<and>
     latched (board g') ! 7 = latched (board g) ! 7"
proof -
  let ?b = "board g"
  let ?lt = "latch ?b \<or> bit val 14"
  from replay_pins_high [of "[8, 9, 10, 11, 12, 13, 14]" ?b val "listener g"] assms(3-6)
  obtain c s m d where
    rp: "replay_pins [8, 9, 10, 11, 12, 13, 14] val (listener g) ?b =
           Inr (?b\<lparr>canvas := c, sseg := s, motor := m, direction := d, latch := ?lt\<rparr>,
                listener g)"
    by auto
  define b1 where "b1 = ?b\<lparr>canvas := c, sseg := s, motor := m, direction := d, latch := ?lt\<rparr>"
  have b1: "latched b1 = latched ?b" "latch b1 = ?lt"
    by (simp_all add: b1_def)
  have rng: "\<forall>bt \<in> set Board_buttons. \<forall>p. btn_pin bt = Some p \<longrightarrow>
                0 \<le> p \<and> p < int (length (latched b1))"
    using Board_buttons_pins assms(2) unfolding b1 by fastforce
  define L where "L = (latched ?b)
           [0 := (if bit val 0 then \<not> latched ?b ! 0 else latched ?b ! 0),
            1 := (if bit val 1 then ?lt else latched ?b ! 1),
            2 := (if bit val 2 then ?lt else latched ?b ! 2),
            3 := (if bit val 3 then ?lt else latched ?b ! 3),
            4 := (if bit val 4 then ?lt else latched ?b ! 4),
            5 := (if bit val 5 then ?lt else latched ?b ! 5)]"
  from replay_buttons_latched [OF rng b1(2), of val] obtain c2 where
    rb: "replay_buttons Board_buttons val b1 = Inr (b1\<lparr>canvas := c2, latched := L\<rparr>)"
    unfolding b1(1) seed_Board_buttons [OF assms(2)] L_def by blast
  have Lfacts: "length L = 8" "L ! 0 = (latched ?b ! 0 \<noteq> bit val 0)"
    "L ! 1 = (if bit val 1 then ?lt else latched ?b ! 1)"
    "L ! 2 = (if bit val 2 then ?lt else latched ?b ! 2)"
    "L ! 3 = (if bit val 3 then ?lt else latched ?b ! 3)"
    "L ! 4 = (if bit val 4 then ?lt else latched ?b ! 4)"
    "L ! 5 = (if bit val 5 then ?lt else latched ?b ! 5)"
    "L ! 6 = latched ?b ! 6" "L ! 7 = latched ?b ! 7"
    unfolding L_def using assms(2) by simp_all
  define g' where "g' = g\<lparr>idr := ''     idr: '' @ format_0X 4 val, connecting := False,
             board := b1\<lparr>canvas := c2, latched := L\<rparr>, listener := listener g,
             pins := map (\<lambda>i. drop_bit (8 + i) val AND 1) [0..<length (pins g)]\<rparr>"
  have "on_message QEmuTag_idr val g = Inr g'"
    using assms(1) unfolding g'_def
    by (simp add: on_message_def QEmuTag_idr_def QEmuTag_gpiod_enabled_def QEmuTag_moder_def
        rp [folded b1_def] rb del: replay_pins.simps replay_buttons.simps)
  moreover have "listener g' = listener g" "\<not> connecting g'" "latch (board g') = ?lt"
    "latched (board g') = L"
    by (simp_all add: g'_def b1_def)
  ultimately show ?thesis
    using Lfacts by (intro exI [of _ g']) simp
qed

theorem resync_seeds_latched_witness:
  "connecting (do_connect True True ''12:00:00'' (WmsGui_init ''localhost'')) \<and>
   length (latched (board (do_connect True True ''12:00:00'' (WmsGui_init ''localhost'')))) = 8 \<and>
   0 \<le> sseg (board (do_connect True True ''12:00:00'' (WmsGui_init ''localhost''))) \<and>
   sseg (board (do_connect True True ''12:00:00'' (WmsGui_init ''localhost''))) < 16 \<and>
   0 \<le> sprite (board (do_connect True True ''12:00:00'' (WmsGui_init ''localhost''))) \<and>
   sprite (board (do_connect True True ''12:00:00'' (WmsGui_init ''localhost''))) < 3 \<and>
   (\<exists>g'. on_message QEmuTag_idr 0x4002 (do_connect True True ''12:00:00'' (WmsGui_init ''localhost'')) = Inr g' \<and>
      listener g' = Some QEmuListener_init \<and> \<not> connecting g' \<and> latch (board g') \<and>
      latched (board g') = [False, True, False, False, False, False, False, False])"
proof -
  let ?g = "do_connect True True ''12:00:00'' (WmsGui_init ''localhost'')"
  have h: "connecting ?g" "length (latched (board ?g)) = 8" "0 \<le> sseg (board ?g)"
    "sseg (board ?g) < 16" "0 \<le> sprite (board ?g)" "sprite (board ?g) < 3"
    and l: "listener ?g = Some QEmuListener_init"
      "latched (board ?g) = [False, False, False, False, False, False, False, False]"
      "\<not> latch (board ?g)"
    by (simp_all add: do_connect_def WmsGui_init_def warning_def WmsBoard_init_def Board_buttons_def)
  from resync_seeds_latched [OF h, of "0x4002"] obtain g' where
    g': "on_message QEmuTag_idr 0x4002 ?g = Inr g'" "listener g' = listener ?g" "\<not> connecting g'"
      "latch (board g') = (latch (board ?g) \<or> bit (0x4002::int) 14)"
      "length (latched (board g')) = 8"
      "latched (board g') ! 0 = (latched (board ?g) ! 0 \<noteq> bit (0x4002::int) 0)"
      "\<forall>p \<in> {1, 2, 3, 4, 5}. latched (board g') ! p =
        (if bit (0x4002::int) p then latch (board ?g) \<or> bit (0x4002::int) 14 else latched (board ?g) ! p)"
      "latched (board g') ! 6 = latched (board ?g) ! 6"
      "latched (board g') ! 7 = latched (board ?g) ! 7"
    by blast
  have "latched (board g') = [False, True, False, False, False, False, False, False]"
    using g'(5-9) unfolding l(2)
    by (intro nth_equalityI) (auto simp: less_Suc_eq numeral_eq_Suc)
  with g' l h show ?thesis by simp
qed

text \<open>
  The claim as stated fails: on a fresh GUI the value 2 has the bit of PS1 set, yet after
  the pass no latched flag is set, because the latch is off and a latch-style button then
  takes the value False.
\<close>

theorem resync_latch_off_counterexample:
  "connecting (WmsGui_init ''localhost'') \<and> bit (2::int) 1 \<and>
   on_message QEmuTag_idr 2 (WmsGui_init ''localhost'') =
     Inr ((WmsGui_init ''localhost'')
            \<lparr>connecting := False, idr := ''     idr: 0002'',
             board := WmsBoard_init\<lparr>canvas := [(702, 26, ''ps1-1.png''), (702, 26, ''ps1-0.png'')]\<rparr>\<rparr>) \<and>
   latched WmsBoard_init = [False, False, False, False, False, False, False, False]"
proof -
  have pad: "replicate 3 (CHR ''0'') = ''000''"
    by (simp add: numeral_3_eq_3)
  have chk: "map (\<lambda>i. drop_bit (8 + i) (2::int) AND 1) [0..<7] = replicate 7 0"
    by (simp add: upt_rec numeral_eq_Suc drop_bit_Suc)
  have rp: "replay_pins [8, 9, 10, 11, 12, 13, 14] 2 None WmsBoard_init = Inr (WmsBoard_init, None)"
    by (simp add: drop_bit_eq_div)
  have rb: "replay_buttons Board_buttons 2 WmsBoard_init =
      Inr (WmsBoard_init\<lparr>canvas := [(702, 26, ''ps1-1.png''), (702, 26, ''ps1-0.png'')]\<rparr>)"
    by (simp add: WmsBoard_init_def button_down_def button_up_def board_defs drop_bit_eq_div)
  show ?thesis
    by (simp add: on_message_def QEmuTag_idr_def QEmuTag_gpiod_enabled_def QEmuTag_moder_def
        WmsGui_init_def warning_def rp rb format_0X_def hex_upper.simps hex_digit_def pad chk
        del: replay_pins.simps replay_buttons.simps)
      (simp add: WmsBoard_init_def Board_buttons_def)
qed

section \<open>Claims about the \<open>connecting\<close> flag\<close>

lemma bind_err_eq_Inr: "(bind_err m f = Inr y) = (\<exists>v. m = Inr v \<and> f v = Inr y)"
  by (cases m) simp_all

lemmas tag_defs = QEmuTag_pin_low_def QEmuTag_pin_high_def QEmuTag_gpiod_enabled_def
  QEmuTag_moder_def QEmuTag_idr_def QEmuTag_usart3_enabled_def QEmuTag_sr_def QEmuTag_cr1_def

lemma on_message_idr_synced:
  "\<not> connecting g \<Longrightarrow>
     on_message QEmuTag_idr val g =
       Inr (g\<lparr>idr := ''     idr: '' @ format_0X 4 val,
              pins := map (\<lambda>i. drop_bit (8 + i) val AND 1) [0..<length (pins g)]\<rparr>)"
  by (simp add: on_message_def tag_defs)

lemma on_message_idr_pending:
  assumes "connecting g"
  shows "on_message QEmuTag_idr val g =
          bind_err (replay_pins [8, 9, 10, 11, 12, 13, 14] val (listener g) (board g)) (\<lambda>(b1, q1).
          bind_err (replay_buttons Board_buttons val b1) (\<lambda>b2.
            Inr (g\<lparr>idr := ''     idr: '' @ format_0X 4 val, connecting := False,
                   board := b2, listener := q1,
                   pins := map (\<lambda>i. drop_bit (8 + i) val AND 1) [0..<length (pins g)]\<rparr>)))"
proof (cases "replay_pins [8, 9, 10, 11, 12, 13, 14] val (listener g) (board g)")
  case (Inl e)
  with assms show ?thesis
    by (simp add: on_message_def tag_defs del: replay_pins.simps replay_buttons.simps)
next
  case (Inr r)
  obtain b1 q1 where r: "r = (b1, q1)" by (cases r)
  show ?thesis
  proof (cases "replay_buttons Board_buttons val b1")
    case (Inl e)
    with assms Inr r show ?thesis
      by (simp add: on_message_def tag_defs del: replay_pins.simps replay_buttons.simps)
  next
    case (Inr b2)
    with assms \<open>replay_pins [8, 9, 10, 11, 12, 13, 14] val (listener g) (board g) = Inr r\<close> r
    show ?thesis
      by (simp add: on_message_def tag_defs del: replay_pins.simps replay_buttons.simps)
  qed
qed

lemma on_message_connecting:
  assumes "on_message tag val g = Inr g'"
  shows "connecting g' = (connecting g \<and> tag \<noteq> QEmuTag_idr)"
proof (cases "tag = QEmuTag_idr")
  case True
  show ?thesis
  proof (cases "connecting g")
    case False
    with assms True on_message_idr_synced [OF False, of val] show ?thesis by auto
  next
    case c: True
    from assms [unfolded True on_message_idr_pending [OF c]]
    obtain r where "(case r of (b1, q1) \<Rightarrow>
          bind_err (replay_buttons Board_buttons val b1) (\<lambda>b2.
            Inr (g\<lparr>idr := ''     idr: '' @ format_0X 4 val, connecting := False,
                   board := b2, listener := q1,
                   pins := map (\<lambda>i. drop_bit (8 + i) val AND 1) [0..<length (pins g)]\<rparr>))) = Inr g'"
      unfolding bind_err_eq_Inr by blast
    then have "\<not> connecting g'"
      by (cases r) (auto simp: bind_err_eq_Inr simp del: replay_buttons.simps)
    with True show ?thesis by simp
  qed
next
  case False
  have "connecting g' = connecting g"
  proof (cases "tag = QEmuTag_pin_low \<or> tag = QEmuTag_pin_high")
    case True
    with assms False obtain lv b' q' where "g' = g\<lparr>board := b', listener := q'\<rparr>"
      by (auto simp: on_message_def tag_defs bind_err_eq_Inr)
    then show ?thesis by simp
  next
    case nopin: False
    with assms False show ?thesis
      by (auto simp: on_message_def split: if_splits)
  qed
  with False show ?thesis by simp
qed

lemma listener_write_connecting:
  "listener_write msg g = Inr g' \<Longrightarrow> connecting g' = connecting g"
  by (auto simp: listener_write_def split: option.splits)

lemma do_query_qemu_connecting:
  assumes "do_query_qemu g = Inr g'"
  shows "connecting g' = connecting g"
proof -
  from assms obtain g1 where
    a: "(if gpiod g \<noteq> 0 then bind_err (listener_write ''D0? '' g) (listener_write ''D4? '')
         else Inr g) = Inr g1"
    and b: "(if usart3 g1 \<noteq> 0 then bind_err (listener_write ''U0? '' g1) (listener_write ''U3? '')
         else Inr g1) = Inr g'"
    unfolding do_query_qemu_def bind_err_eq_Inr by blast
  from a have "connecting g1 = connecting g"
    by (cases "gpiod g = 0") (auto simp: bind_err_eq_Inr dest!: listener_write_connecting)
  moreover from b have "connecting g' = connecting g1"
    by (cases "usart3 g1 = 0") (auto simp: bind_err_eq_Inr dest!: listener_write_connecting)
  ultimately show ?thesis by simp
qed

lemma do_poll_serial_connecting:
  "do_poll_serial rx g = Inr g' \<Longrightarrow> connecting g' = connecting g"
proof (induction rx arbitrary: g)
  case Nil
  then show ?case by simp
next
  case (Cons r rx)
  show ?case
  proof (cases "serial g = None")
    case True
    with Cons.prems show ?thesis by simp
  next
    case False
    with Cons.prems obtain res where
      t: "(case res of None \<Rightarrow> Inr g
           | Some t \<Rightarrow> if t = [] then Inr g else do_poll_serial rx (g\<lparr>putty := putty g @ t\<rparr>)) = Inr g'"
      by (auto simp: bind_err_eq_Inr)
    show ?thesis
    proof (cases res)
      case None
      with t show ?thesis by simp
    next
      case (Some t')
      with t Cons.IH [of "g\<lparr>putty := putty g @ t'\<rparr>"] show ?thesis
        by (cases "t' = []") auto
    qed
  qed
qed

lemma on_timer_running_connecting:
  assumes "on_timer_running rx g = Inr g'"
  shows "connecting g' = connecting g"
proof -
  from assms obtain g1 g2 b3 g5 where
    s1: "do_poll_serial rx (g\<lparr>timers := timers g - 1\<rparr>) = Inr g1"
    and s2: "do_query_qemu g1 = Inr g2"
    and s4: "(if listener (g2\<lparr>board := b3\<rparr>) \<noteq> None then
                bind_err (listener_write Board_rcc_ahbenr (g2\<lparr>board := b3\<rparr>)) (\<lambda>g4.
                  if serial g4 \<noteq> None then listener_write Board_rcc_apb1enr g4 else Inr g4)
              else Inr (g2\<lparr>board := b3\<rparr>)) = Inr g5"
    and s5: "g' = (if \<not> stopping g5 then g5\<lparr>timers := timers g5 + 1\<rparr> else g5)"
    unfolding on_timer_running_def bind_err_eq_Inr Let_def by blast
  from s1 have "connecting g1 = connecting g"
    by (auto dest: do_poll_serial_connecting)
  moreover from s2 have "connecting g2 = connecting g1"
    by (rule do_query_qemu_connecting)
  moreover have "connecting g5 = connecting g2"
  proof (cases "listener (g2\<lparr>board := b3\<rparr>) = None")
    case True
    with s4 show ?thesis by auto
  next
    case False
    with s4 obtain g4 where g4: "listener_write Board_rcc_ahbenr (g2\<lparr>board := b3\<rparr>) = Inr g4"
      and g5: "(if serial g4 \<noteq> None then listener_write Board_rcc_apb1enr g4 else Inr g4) = Inr g5"
      by (auto simp: bind_err_eq_Inr)
    from g4 have "connecting g4 = connecting g2"
      by (auto dest: listener_write_connecting)
    moreover from g5 have "connecting g5 = connecting g4"
      by (cases "serial g4 = None") (auto dest: listener_write_connecting)
    ultimately show ?thesis by simp
  qed
  moreover from s5 have "connecting g' = connecting g5"
    by simp
  ultimately show ?thesis by simp
qed

lemma do_connect_connecting: "connecting (do_connect dialled answer now g) = connecting g"
  by (simp add: do_connect_def Let_def warning_def close_def do_warning_def)

lemma on_b1_down_connecting:
  assumes "on_b1_down g = Inr g'"
  shows "connecting g' = connecting g"
proof (cases "button g")
  case None
  with assms show ?thesis by (simp add: on_b1_down_def)
next
  case (Some bt)
  with assms obtain r where
    "(case r of (b', q') \<Rightarrow> Inr (g\<lparr>board := b', listener := q'\<rparr>)) = Inr g'"
    by (auto simp: on_b1_down_def bind_err_eq_Inr)
  then show ?thesis by (cases r) auto
qed

lemma on_b1_up_connecting:
  assumes "on_b1_up g = Inr g'"
  shows "connecting g' = connecting g"
proof (cases "button g")
  case None
  with assms show ?thesis by (simp add: on_b1_up_def)
next
  case (Some bt)
  with assms show ?thesis
    by (cases "take 5 (btn_up bt) = ''reset''")
       (auto simp: on_b1_up_def bind_err_eq_Inr Let_def)
qed

lemma do_warning_connecting: "connecting (do_warning now msg g) = connecting g"
  by (simp add: do_warning_def)

lemma dispatch_connecting:
  assumes "dispatch ev g = Inr g'"
  shows "connecting g' = (connecting g \<and> \<not> is_idr_event ev)"
proof (cases ev)
  case (Ev_connect dialled answer now)
  with assms show ?thesis by (auto simp: do_connect_connecting)
next
  case (Ev_message tag val)
  with assms show ?thesis by (auto dest: on_message_connecting)
next
  case (Ev_timer rx)
  with assms show ?thesis by (auto dest: on_timer_running_connecting)
next
  case Ev_b1_down
  with assms show ?thesis by (auto dest: on_b1_down_connecting)
next
  case Ev_b1_up
  with assms show ?thesis by (auto dest: on_b1_up_connecting)
next
  case (Ev_move px py)
  have "connecting (on_move px py g) = connecting g"
    by (simp add: on_move_def Let_def)
  with assms Ev_move show ?thesis by auto
next
  case (Ev_do_warning now)
  with assms show ?thesis
    by (cases "after_warnings g") (auto simp: do_warning_connecting)
qed

lemma run_connecting:
  "run evs g = Inr g' \<Longrightarrow> connecting g' = (connecting g \<and> (\<forall>ev \<in> set evs. \<not> is_idr_event ev))"
proof (induction evs arbitrary: g)
  case Nil
  then show ?case by simp
next
  case (Cons ev evs)
  then obtain g1 where "dispatch ev g = Inr g1" "run evs g1 = Inr g'"
    by (auto simp: bind_err_eq_Inr)
  with Cons.IH [of g1] dispatch_connecting [of ev g g1] show ?case by auto
qed

text \<open>
  C3, as the code has it. After any run of events from the creation of the GUI (connects
  and reconnects included), the resynchronisation is still pending exactly when no Idr
  reply has been handled yet. While it is pending, an Idr reply runs the replay (pins 8 to
  14, then the buttons) and clears the flag; once it is cleared, an Idr reply only updates
  the label and the check boxes and touches neither the board nor the listener. \<open>do_connect\<close>
  never changes the flag, so the flag set in the constructor arms one replay for the life
  of the GUI, and a later connection does not arm another.
\<close>

theorem resync_once_per_gui:
  assumes "run evs (WmsGui_init h) = Inr g"
  shows "connecting g = (\<forall>ev \<in> set evs. \<not> is_idr_event ev) \<and>
     (connecting g \<longrightarrow>
        on_message QEmuTag_idr val g =
          bind_err (replay_pins [8, 9, 10, 11, 12, 13, 14] val (listener g) (board g)) (\<lambda>(b1, q1).
          bind_err (replay_buttons Board_buttons val b1) (\<lambda>b2.
            Inr (g\<lparr>idr := ''     idr: '' @ format_0X 4 val, connecting := False,
                   board := b2, listener := q1,
                   pins := map (\<lambda>i. drop_bit (8 + i) val AND 1) [0..<length (pins g)]\<rparr>)))) \<and>
     (\<not> connecting g \<longrightarrow>
        on_message QEmuTag_idr val g =
          Inr (g\<lparr>idr := ''     idr: '' @ format_0X 4 val,
                 pins := map (\<lambda>i. drop_bit (8 + i) val AND 1) [0..<length (pins g)]\<rparr>)) \<and>
     connecting (do_connect dialled answer now g) = connecting g"
proof -
  have c0: "connecting (WmsGui_init h)"
    by (simp add: WmsGui_init_def warning_def)
  have "connecting g = (\<forall>ev \<in> set evs. \<not> is_idr_event ev)"
    using run_connecting [OF assms] c0 by simp
  then show ?thesis
    using on_message_idr_pending [of g val] on_message_idr_synced [of g val]
      do_connect_connecting [of dialled answer now g]
    by blast
qed

lemma reconnect_run:
  "run [Ev_connect True True ''12:00:00'', Ev_message QEmuTag_idr 0x4000,
        Ev_connect True True ''12:00:05''] (WmsGui_init ''localhost'') =
     Inr ((WmsGui_init ''localhost'')
           \<lparr>listener := Some QEmuListener_init,
            after_warnings := after_warnings (WmsGui_init ''localhost'')
               @ [''Connected to QEMU'', ''Connected to QEMU''],
            buttons_connected := True, timers := 2, connecting := False,
            idr := ''     idr: 4000'', board := WmsBoard_init\<lparr>latch := True\<rparr>,
            pins := [0, 0, 0, 0, 0, 0, 1]\<rparr>)"
proof -
  have pad: "replicate 0 (CHR ''0'') = []" by simp
  have hx: "hex_upper 16384 = ''4000''"
    by (simp add: hex_upper.simps hex_digit_def)
  have chk: "map (\<lambda>i. drop_bit (8 + i) (0x4000::int) AND 1) [0..<7] = [0, 0, 0, 0, 0, 0, 1]"
    by (simp add: upt_rec numeral_eq_Suc drop_bit_Suc)
  have rp: "\<And>q. replay_pins [8, 9, 10, 11, 12, 13, 14] 0x4000 q WmsBoard_init =
              Inr (WmsBoard_init\<lparr>latch := True\<rparr>, q)"
    by (simp add: drop_bit_eq_div update_device_def)
  have rb: "replay_buttons Board_buttons 0x4000 (WmsBoard_init\<lparr>latch := True\<rparr>) =
              Inr (WmsBoard_init\<lparr>latch := True\<rparr>)"
    by (simp add: Board_buttons_def mk_Button_def drop_bit_eq_div)
  show ?thesis
    by (simp add: do_connect_def Let_def on_message_def tag_defs WmsGui_init_def warning_def
        rp rb format_0X_def hx chk del: replay_pins.simps replay_buttons.simps)
qed

theorem resync_once_per_gui_witness:
  "\<exists>g. run [Ev_connect True True ''12:00:00'', Ev_message QEmuTag_idr 0x4000,
             Ev_connect True True ''12:00:05''] (WmsGui_init ''localhost'') = Inr g \<and>
        \<not> connecting g \<and>
        on_message QEmuTag_idr 0x0100 g =
          Inr (g\<lparr>idr := ''     idr: '' @ format_0X 4 0x0100,
                 pins := map (\<lambda>i. drop_bit (8 + i) (0x0100::int) AND 1) [0..<length (pins g)]\<rparr>) \<and>
        connecting (do_connect True True ''12:00:10'' g) = connecting g"
proof -
  let ?evs = "[Ev_connect True True ''12:00:00'', Ev_message QEmuTag_idr 0x4000,
               Ev_connect True True ''12:00:05'']"
  obtain g where g: "run ?evs (WmsGui_init ''localhost'') = Inr g"
    using reconnect_run by blast
  note T = resync_once_per_gui [OF g, of "0x0100" True True "''12:00:10''"]
  have idr: "(\<forall>ev \<in> set ?evs. \<not> is_idr_event ev) = False"
    by simp
  from T have A: "connecting g = (\<forall>ev \<in> set ?evs. \<not> is_idr_event ev)"
    by (rule conjunct1)
  have nc: "\<not> connecting g"
    unfolding A idr by simp
  from T have "\<not> connecting g \<longrightarrow>
        on_message QEmuTag_idr 0x0100 g =
          Inr (g\<lparr>idr := ''     idr: '' @ format_0X 4 0x0100,
                 pins := map (\<lambda>i. drop_bit (8 + i) (0x0100::int) AND 1) [0..<length (pins g)]\<rparr>)"
    by (elim conjE)
  with nc have om: "on_message QEmuTag_idr 0x0100 g =
          Inr (g\<lparr>idr := ''     idr: '' @ format_0X 4 0x0100,
                 pins := map (\<lambda>i. drop_bit (8 + i) (0x0100::int) AND 1) [0..<length (pins g)]\<rparr>)"
    by (rule mp [rotated])
  from T have dc: "connecting (do_connect True True ''12:00:10'' g) = connecting g"
    by (elim conjE)
  from g nc om dc show ?thesis
    by (intro exI [of _ g] conjI)
qed

text \<open>
  The claim as stated fails: after a connect, an Idr reply and a second connect, the first
  Idr reply of the new connection has bit 8 set, and yet nothing is replayed: the segment
  mask stays 0 and the board is unchanged.
\<close>

theorem reconnect_no_resync_counterexample:
  "\<exists>g g'. run [Ev_connect True True ''12:00:00'', Ev_message QEmuTag_idr 0x4000,
                Ev_connect True True ''12:00:05''] (WmsGui_init ''localhost'') = Inr g \<and>
          listener g = Some QEmuListener_init \<and> sseg (board g) = 0 \<and>
          bit (0x0100::int) 8 \<and>
          on_message QEmuTag_idr 0x0100 g = Inr g' \<and>
          board g' = board g \<and> listener g' = listener g"
proof -
  define g where "g = (WmsGui_init ''localhost'')
           \<lparr>listener := Some QEmuListener_init,
            after_warnings := after_warnings (WmsGui_init ''localhost'')
               @ [''Connected to QEMU'', ''Connected to QEMU''],
            buttons_connected := True, timers := 2, connecting := False,
            idr := ''     idr: 4000'', board := WmsBoard_init\<lparr>latch := True\<rparr>,
            pins := [0, 0, 0, 0, 0, 0, 1]\<rparr>"
  define g' where "g' = g\<lparr>idr := ''     idr: '' @ format_0X 4 0x0100,
              pins := map (\<lambda>i. drop_bit (8 + i) (0x0100::int) AND 1) [0..<length (pins g)]\<rparr>"
  have r: "run [Ev_connect True True ''12:00:00'', Ev_message QEmuTag_idr 0x4000,
                Ev_connect True True ''12:00:05''] (WmsGui_init ''localhost'') = Inr g"
    unfolding g_def by (rule reconnect_run)
  have nc: "\<not> connecting g" by (simp add: g_def)
  have s0: "sseg (board g) = 0"
    by (simp add: g_def WmsBoard_init_def)
  have l0: "listener g = Some QEmuListener_init" by (simp add: g_def)
  have b8: "bit (0x0100::int) 8" by simp
  have om: "on_message QEmuTag_idr 0x0100 g = Inr g'"
    unfolding g'_def by (rule on_message_idr_synced [OF nc])
  have same: "board g' = board g" "listener g' = listener g"
    by (simp_all add: g'_def)
  from r l0 s0 b8 om same show ?thesis
    by (intro exI [of _ g] exI [of _ g'] conjI)
qed

end
